theory Spec2Isabelle
  imports Main
begin

section \<open>Strings and the Python built-ins the scripts rely on\<close>

text \<open>
  A Python \<open>str\<close> is modelled as a \<open>string\<close> whose characters are the code points of
  the decoded text (code points below 256). \<open>bs\<close> is the backslash and \<open>nl\<close> the line
  feed; neither can be written inside a string literal.
\<close>

definition bs :: char where
  "bs = CHR 0x5C"

definition nl :: char where
  "nl = CHR 0x0A"

text \<open>
  \<open>str.isspace\<close> on one code point, which is also what \<open>\s\<close> matches in a \<open>str\<close>
  pattern: 9 to 13, 28 to 32, 133 and 160 are the white-space code points below 256.
\<close>

definition isspace :: "char \<Rightarrow> bool" where
  "isspace c =
     (let n = (of_char c :: nat)
      in (9 \<le> n \<and> n \<le> 13) \<or> (28 \<le> n \<and> n \<le> 32) \<or> n = 133 \<or> n = 160)"

text \<open>\<open>str.strip()\<close>: white space removed at both ends.\<close>

definition strip :: "string \<Rightarrow> string" where
  "strip s = rev (dropWhile isspace (rev (dropWhile isspace s)))"

text \<open>\<open>str(n)\<close> for a non-negative integer and for an integer: decimal digits.\<close>

definition digit_char :: "nat \<Rightarrow> char" where
  "digit_char d = ''0123456789'' ! d"

function str_nat :: "nat \<Rightarrow> string" where
  "str_nat n = (if n < 10 then [digit_char n] else str_nat (n div 10) @ [digit_char (n mod 10)])"
  by pat_completeness auto
termination
  by (relation "measure (\<lambda>n. n)") auto

declare str_nat.simps [simp del]

definition str_int :: "int \<Rightarrow> string" where
  "str_int i = (if i < 0 then CHR ''-'' # str_nat (nat (- i)) else str_nat (nat i))"

text \<open>The exceptions that the two scripts can raise on the paths modelled here.\<close>

datatype error = IndexError | AttributeError | ValueError | OverflowError

section \<open>Pipeline B: the section separator\<close>

subsection \<open>The fixed tables\<close>

text \<open>
  \<open>create_section_mapping\<close> and \<open>get_sex_mapping\<close> return dictionary literals. They are
  kept as association lists in the order of the literal (\<open>main\<close> prints the first one in
  that order); \<open>dict.get\<close> is \<open>map_of\<close>, which compares keys by equality.
\<close>

definition create_section_mapping :: "(string \<times> string) list" where
  "create_section_mapping =
     [(''CMS All Time Top 10'', ''team''),
      (''CMS Axelrood Pool Records'', ''team''),
      (''CMS Frosh Swimming & Diving Records'', ''team''),
      (''Development of Team Records (October 2001 to March 2025)'', ''team''),
      (''CMS at UCSD'', ''dual''),
      (''CMS at Cal Baptist Distance Meet'', ''dual''),
      (''CMS at PP'', ''dual''),
      (''CMS at PP Combined'', ''dual''),
      (''CMS SCIAC Champions'', ''champs''),
      (''SCIAC All Time Top 10 Performers'', ''champs''),
      (''SCIAC Records'', ''champs''),
      (''NCAA TOP 20'', ''champs'')]"

definition get_sex_mapping :: "(string \<times> string) list" where
  "get_sex_mapping =
     [(''Athena'', ''Athenas''),
      (''Stag'', ''Stags''),
      (''Women'', ''Women''),
      (''Men'', ''Men'')]"

subsection \<open>The image pool\<close>

text \<open>
  \<open>glob.glob(os.path.join(image_path, "*.EXT"))\<close> over a directory whose entries are
  \<open>names\<close> (in the order the directory yields them): an entry matches when it does not
  start with a dot and ends with the extension; a missing directory is the empty listing.
  The result of \<open>os.path.basename\<close> on a joined path is the entry name again.
\<close>

definition ends_with :: "string \<Rightarrow> string \<Rightarrow> bool" where
  "ends_with ext name = (length ext \<le> length name \<and> drop (length name - length ext) name = ext)"

definition glob_ext :: "string \<Rightarrow> string list \<Rightarrow> string list" where
  "glob_ext ext names =
     filter (\<lambda>name. (case name of [] \<Rightarrow> False | c # _ \<Rightarrow> c \<noteq> CHR ''.'') \<and> ends_with ext name) names"

definition get_highlight_images :: "string list \<Rightarrow> string list" where
  "get_highlight_images names =
     (let jpg_files = glob_ext ''.JPG'' names @ glob_ext ''.jpg'' names @ glob_ext ''.HEIC'' names
      in map (\<lambda>filename. ''../assets/highlights/Highlights/'' @ filename) jpg_files)"

text \<open>
  \<open>random.choice(seq)\<close>: raises \<open>IndexError\<close> on an empty sequence, and otherwise returns
  the element at an index below \<open>len(seq)\<close>. The generator is the parameter \<open>r\<close>, the
  number drawn at this call.
\<close>

definition random_choice :: "'a list \<Rightarrow> nat \<Rightarrow> error + 'a" where
  "random_choice seq r = (if seq = [] then Inl IndexError else Inr (seq ! (r mod length seq)))"

subsection \<open>The title page\<close>

definition create_title_page_latex :: "string \<Rightarrow> string \<Rightarrow> string \<Rightarrow> string" where
  "create_title_page_latex section_name subsection_name image_path =
     [nl] @
     bs # ''newpage'' @ [nl] @
     bs # ''thispagestyle{empty}'' @ [nl] @
     bs # ''begin{center}'' @ [nl] @
     bs # ''vspace*{1cm}'' @ [nl] @
     [nl] @
     ''% Title section at the top'' @ [nl] @
     bs # ''begin{tikzpicture}[overlay, remember picture]'' @ [nl] @
     ''    % Semi-transparent background for text'' @ [nl] @
     ''    '' @ bs # ''fill[white, opacity=0.9] ($(current page.north) + (-6cm, -2cm)$) rectangle ($(current page.north) + (6cm, -6cm)$);'' @ [nl] @
     ''    '' @ [nl] @
     ''    % Section title'' @ [nl] @
     ''    '' @ bs # ''node[anchor=center, text width=12cm, align=center] at ($(current page.north) + (0, -3.5cm)$) {'' @ [nl] @
     ''        '' @ bs # ''fontsize{36pt}{40pt}'' @ bs # ''selectfont'' @ bs # ''textbf{'' @ bs # ''textcolor{teamprimary}{'' @ section_name @ ''}}'' @ [nl] @
     ''    };'' @ [nl] @
     ''    '' @ [nl] @
     ''    % Subsection title'' @ [nl] @
     ''    '' @ bs # ''node[anchor=center, text width=12cm, align=center] at ($(current page.north) + (0, -4.5cm)$) {'' @ [nl] @
     ''        '' @ bs # ''fontsize{24pt}{28pt}'' @ bs # ''selectfont'' @ bs # ''textbf{'' @ bs # ''textcolor{teamsecondary}{'' @ subsection_name @ ''}}'' @ [nl] @
     ''    };'' @ [nl] @
     bs # ''end{tikzpicture}'' @ [nl] @
     [nl] @
     ''% Image below the title'' @ [nl] @
     bs # ''vspace*{4cm}'' @ [nl] @
     bs # ''begin{tikzpicture}[overlay, remember picture]'' @ [nl] @
     ''    '' @ bs # ''node[anchor=center] at ($(current page.center) + (0, -1cm)$) {'' @ [nl] @
     ''        '' @ bs # ''includegraphics[width=0.6'' @ bs # ''textwidth, height=0.5'' @ bs # ''textheight, keepaspectratio]{'' @ image_path @ ''}'' @ [nl] @
     ''    };'' @ [nl] @
     bs # ''end{tikzpicture}'' @ [nl] @
     [nl] @
     bs # ''vfill'' @ [nl] @
     bs # ''end{center}'' @ [nl] @
     bs # ''clearpage'' @ [nl]"

subsection \<open>The section extractor\<close>

text \<open>
  The pattern of \<open>extract_sections_from_latex\<close> is
  \<^verbatim>\<open>(\\subsection\{[^}]+\})\s*(\\subsubsection\{[^}]+\})\s*(.*?)(?=\\subsection\{|\\end\{document\}|$)\<close>
  with \<open>re.DOTALL\<close>. Every piece of it has at most one way to match at a given position:
  \<open>[^}]+\<close> is followed by the brace it excludes, \<open>\s*\<close> by a backslash or by the lazy
  group, and the lazy group stops at the first position where the look-ahead holds (the end
  of the text at the latest). The matcher below follows the pattern piece by piece and
  returns the three groups and the text after the match.
\<close>

definition subsection_open :: string where
  "subsection_open = bs # ''subsection{''"

definition subsubsection_open :: string where
  "subsubsection_open = bs # ''subsubsection{''"

definition end_document :: string where
  "end_document = bs # ''end{document}''"

text \<open>A literal: the text after it, when the text starts with it.\<close>

fun match_lit :: "string \<Rightarrow> string \<Rightarrow> string option" where
  "match_lit [] s = Some s"
| "match_lit (p # ps) [] = None"
| "match_lit (p # ps) (c # cs) = (if p = c then match_lit ps cs else None)"

text \<open>
  \<open>LIT[^}]+\}\<close>, where \<open>LIT\<close> ends with the opening brace: the captured name and the
  text after the closing brace.
\<close>

definition match_braced :: "string \<Rightarrow> string \<Rightarrow> (string \<times> string) option" where
  "match_braced lit s =
     (case match_lit lit s of
        None \<Rightarrow> None
      | Some r \<Rightarrow>
          (let name = takeWhile (\<lambda>c. c \<noteq> CHR ''}'') r;
               rest = dropWhile (\<lambda>c. c \<noteq> CHR ''}'') r
           in if name = [] then None
              else (case rest of [] \<Rightarrow> None | _ # rest' \<Rightarrow> Some (name, rest'))))"

text \<open>
  The look-ahead \<^verbatim>\<open>(?=\\subsection\{|\\end\{document\}|$)\<close>; without \<open>re.MULTILINE\<close> the
  dollar holds at the end of the text and just before a line feed that ends the text.
\<close>

definition lookahead :: "string \<Rightarrow> bool" where
  "lookahead s =
     (match_lit subsection_open s \<noteq> None \<or> match_lit end_document s \<noteq> None \<or> s = [] \<or> s = [nl])"

text \<open>The lazy group \<open>(.*?)\<close> before the look-ahead: the group and the text after it.\<close>

fun lazy_body :: "string \<Rightarrow> string \<times> string" where
  "lazy_body [] = ([], [])"
| "lazy_body (c # cs) =
     (if lookahead (c # cs) then ([], c # cs)
      else (let (b, r) = lazy_body cs in (c # b, r)))"

text \<open>The whole pattern at the start of \<open>s\<close>: the groups 1, 2, 3 and the text after the match.\<close>

definition match_section :: "string \<Rightarrow> ((string \<times> string \<times> string) \<times> string) option" where
  "match_section s =
     (case match_braced subsection_open s of
        None \<Rightarrow> None
      | Some (name, r1) \<Rightarrow>
          (case match_braced subsubsection_open (dropWhile isspace r1) of
             None \<Rightarrow> None
           | Some (sx, r2) \<Rightarrow>
               (let (body, rest) = lazy_body (dropWhile isspace r2)
                in Some ((subsection_open @ name @ ''}'', subsubsection_open @ sx @ ''}'', body), rest))))"

text \<open>
  \<open>re.finditer\<close>: the scan tries the pattern at every position from left to right and,
  after a match, goes on at the end of that match (the pattern never matches the empty text).
  \<open>pos\<close> is the position of the scan in the document and \<open>skip\<close> the number of
  characters ahead that the last match still covers. \<open>re.findall\<close> keeps the groups.
\<close>

fun finditer :: "nat \<Rightarrow> nat \<Rightarrow> string \<Rightarrow> (nat \<times> string \<times> string \<times> string) list" where
  "finditer pos skip [] = []"
| "finditer pos (Suc skip) (c # cs) = finditer (Suc pos) skip cs"
| "finditer pos 0 (c # cs) =
     (case match_section (c # cs) of
        None \<Rightarrow> finditer (Suc pos) 0 cs
      | Some (groups, rest) \<Rightarrow> (pos, groups) # finditer (Suc pos) (length cs - length rest) cs)"

definition re_findall :: "string \<Rightarrow> (string \<times> string \<times> string) list" where
  "re_findall s = map snd (finditer 0 0 s)"

text \<open>
  \<open>re.search\<close> with one of the patterns \<^verbatim>\<open>\\subsection\{([^}]+)\}\<close> and
  \<^verbatim>\<open>\\subsubsection\{([^}]+)\}\<close>, followed by \<open>.group(1)\<close>: group 1 of the leftmost
  match, \<open>None\<close> when nothing matches.
\<close>

fun re_search_braced :: "string \<Rightarrow> string \<Rightarrow> string option" where
  "re_search_braced lit [] = map_option fst (match_braced lit [])"
| "re_search_braced lit (c # cs) =
     (case match_braced lit (c # cs) of
        Some (name, rest) \<Rightarrow> Some name
      | None \<Rightarrow> re_search_braced lit cs)"

record section_rec =
  section_name :: string
  sex :: string
  subsection_text :: string
  subsubsection_text :: string
  content :: string

text \<open>
  The loop over the matches in \<open>extract_sections_from_latex\<close>. Calling \<open>.group(1)\<close> on a
  failed search raises \<open>AttributeError\<close>.
\<close>

fun build_sections :: "(string \<times> string \<times> string) list \<Rightarrow> error + section_rec list" where
  "build_sections [] = Inr []"
| "build_sections ((m0, m1, m2) # matches) =
     (let subsection = strip m0;
          subsubsection = strip m1;
          content_section = strip m2
      in case re_search_braced subsection_open subsection of
           None \<Rightarrow> Inl AttributeError
         | Some name \<Rightarrow>
             (case re_search_braced subsubsection_open subsubsection of
                None \<Rightarrow> Inl AttributeError
              | Some sx \<Rightarrow>
                  (case build_sections matches of
                     Inl e \<Rightarrow> Inl e
                   | Inr sections \<Rightarrow>
                       Inr (\<lparr>section_name = name, sex = sx, subsection_text = subsection,
                             subsubsection_text = subsubsection, content = content_section\<rparr>
                            # sections))))"

text \<open>\<open>extract_sections_from_latex\<close>, as a function of the text of the file it reads.\<close>

definition extract_sections_from_latex :: "string \<Rightarrow> error + section_rec list" where
  "extract_sections_from_latex doc = build_sections (re_findall doc)"

subsection \<open>The per-destination assembler\<close>

text \<open>
  A file is the sequence of its \<open>f.write\<close> calls, one constructor per call site of
  \<open>write_section_to_file\<close>; \<open>render\<close> gives the text each call writes and \<open>file_text\<close>
  the text of the file.
\<close>

datatype fwrite =
    Header string
  | Spacing
  | Heading string
  | TitlePage string string string
  | Content string
  | ContentEnd

fun render :: "fwrite \<Rightarrow> string" where
  "render (Header h) = h"
| "render Spacing = [nl]"
| "render (Heading name) = subsection_open @ name @ ''}'' @ [nl]"
| "render (TitlePage name sx img) = create_title_page_latex name sx img"
| "render (Content c) = c"
| "render ContentEnd = [nl, nl]"

definition file_text :: "fwrite list \<Rightarrow> string" where
  "file_text ws = concat (map render ws)"

definition header_writes :: "string \<Rightarrow> fwrite list" where
  "header_writes target_file =
     (if target_file = ''champs'' then [Header (bs # ''section{Championship Records}'' @ [nl, nl])]
      else if target_file = ''dual'' then [Header (bs # ''section{Dual Meet Records}'' @ [nl, nl])]
      else if target_file = ''team'' then
        [Header (''% chktex-file 8'' @ [nl, nl] @ bs # ''section{Team Records}'' @ [nl, nl])]
      else [])"

text \<open>
  The files on disk, the lines printed so far, and the number of draws taken from the
  random generator \<open>rnd\<close> (draw \<open>k\<close> is \<open>rnd k\<close>).
\<close>

record world =
  files :: "string \<rightharpoonup> fwrite list"
  stdout :: "string list"
  draws :: nat

text \<open>
  The grouping loop of \<open>write_section_to_file\<close>, with \<open>current_section\<close> as its first
  argument: the writes made, the exception that ended the loop if one did, and the number
  of draws taken. The heading is written before the image is chosen.
\<close>

fun write_groups ::
  "string option \<Rightarrow> section_rec list \<Rightarrow> (string \<times> string) list \<Rightarrow> string list \<Rightarrow> (nat \<Rightarrow> nat) \<Rightarrow> nat
     \<Rightarrow> fwrite list \<times> error option \<times> nat" where
  "write_groups current_section [] sex_mapping highlight_images rnd k = ([], None, k)"
| "write_groups current_section (s # ss) sex_mapping highlight_images rnd k =
     (let name = section_name s;
          heading =
            (if current_section \<noteq> Some name
             then (if current_section \<noteq> None then [Spacing] else []) @ [Heading name]
             else []);
          mapped_sex = (case map_of sex_mapping (sex s) of Some v \<Rightarrow> v | None \<Rightarrow> sex s)
      in case random_choice highlight_images (rnd k) of
           Inl e \<Rightarrow> (heading, Some e, k)
         | Inr random_image \<Rightarrow>
             (let body =
                    TitlePage name mapped_sex random_image
                    # (if strip (content s) \<noteq> [] then [Content (strip (content s)), ContentEnd] else []);
                  (ws, e, k') = write_groups (Some name) ss sex_mapping highlight_images rnd (Suc k)
              in (heading @ body @ ws, e, k')))"

definition output_path :: "string \<Rightarrow> string" where
  "output_path target_file =
     ''/home/ben/Desktop/Projects/media_guide/latex/sections/'' @ target_file @ ''.tex''"

text \<open>
  \<open>write_section_to_file\<close>: the exception it raises, if any, and the world it leaves. The
  file is opened for writing only when some record is routed to \<open>target_file\<close>; the
  \<open>with\<close> block closes it on every exit, so what was written before an exception stays.
\<close>

definition write_section_to_file ::
  "section_rec list \<Rightarrow> string \<Rightarrow> (string \<times> string) list \<Rightarrow> (string \<times> string) list \<Rightarrow> string list
     \<Rightarrow> (nat \<Rightarrow> nat) \<Rightarrow> world \<Rightarrow> error option \<times> world" where
  "write_section_to_file sections target_file section_mapping sex_mapping highlight_images rnd w =
     (let file_sections =
            filter (\<lambda>s. map_of section_mapping (section_name s) = Some target_file) sections
      in if file_sections = []
         then (None, w\<lparr>stdout := stdout w @ [''No sections found for '' @ target_file @ ''.tex'']\<rparr>)
         else
           (let (ws, e, k) = write_groups None file_sections sex_mapping highlight_images rnd (draws w);
                w' = w\<lparr>files := (files w)(output_path target_file \<mapsto> header_writes target_file @ ws),
                       draws := k\<rparr>
            in case e of
                 Some err \<Rightarrow> (Some err, w')
               | None \<Rightarrow>
                   (None, w'\<lparr>stdout := stdout w' @
                      [''Written '' @ str_nat (length file_sections) @ '' sections to '' @ target_file
                         @ ''.tex with artistic title pages'']\<rparr>)))"

subsection \<open>The run\<close>

text \<open>The loop of \<open>main\<close> over the three targets; an exception ends the run.\<close>

fun write_targets ::
  "string list \<Rightarrow> section_rec list \<Rightarrow> (string \<times> string) list \<Rightarrow> (string \<times> string) list \<Rightarrow> string list
     \<Rightarrow> (nat \<Rightarrow> nat) \<Rightarrow> world \<Rightarrow> error option \<times> world" where
  "write_targets [] sections section_mapping sex_mapping highlight_images rnd w = (None, w)"
| "write_targets (target_file # ts) sections section_mapping sex_mapping highlight_images rnd w =
     (let w1 = w\<lparr>stdout := stdout w @ [[nl] @ ''Writing sections to '' @ target_file @ ''.tex...'']\<rparr>
      in case write_section_to_file sections target_file section_mapping sex_mapping
                highlight_images rnd w1 of
           (Some e, w2) \<Rightarrow> (Some e, w2)
         | (None, w2) \<Rightarrow>
             write_targets ts sections section_mapping sex_mapping highlight_images rnd w2)"

definition targets :: "string list" where
  "targets = [''champs'', ''dual'', ''team'']"

definition input_file :: string where
  "input_file = ''/home/ben/Desktop/Projects/media_guide/latex/sections/generated_latex.tex''"

text \<open>
  \<open>main\<close>. \<open>input\<close> is the text of the input file, \<open>None\<close> when the file does not exist;
  \<open>image_dir\<close> lists the entries of the image directory.
\<close>

definition main :: "string option \<Rightarrow> string list \<Rightarrow> (nat \<Rightarrow> nat) \<Rightarrow> world \<Rightarrow> error option \<times> world" where
  "main input image_dir rnd w =
     (case input of
        None \<Rightarrow> (None, w\<lparr>stdout := stdout w @ [''Error: Input file '' @ input_file @ '' not found!'']\<rparr>)
      | Some doc \<Rightarrow>
          (let w1 = w\<lparr>stdout := stdout w @ [''Extracting sections from generated_latex.tex...'']\<rparr>
           in case extract_sections_from_latex doc of
                Inl e \<Rightarrow> (Some e, w1)
              | Inr sections \<Rightarrow>
                  (let highlight_images = get_highlight_images image_dir;
                       section_mapping = create_section_mapping;
                       sex_mapping = get_sex_mapping;
                       w2 = w1\<lparr>stdout := stdout w1 @
                              [''Found '' @ str_nat (length sections) @ '' sections'',
                               ''Loading highlight images...'',
                               ''Found '' @ str_nat (length highlight_images) @ '' highlight images'',
                               [nl] @ ''Section mapping:'']
                              @ map (\<lambda>(sheet, target). ''  '' @ sheet @ '' -> '' @ target @ ''.tex'')
                                  section_mapping\<rparr>
                   in case write_targets targets sections section_mapping sex_mapping
                             highlight_images rnd w2 of
                        (Some e, w3) \<Rightarrow> (Some e, w3)
                      | (None, w3) \<Rightarrow>
                          (None, w3\<lparr>stdout := stdout w3 @
                             [[nl] @ ''Separation complete with artistic title pages!'']\<rparr>))))"

section \<open>Pipeline A: the event profiles\<close>

subsection \<open>Data frames and cells\<close>

text \<open>
  A cell of a data frame is missing (\<open>NaN\<close>), a \<open>str\<close>, or another scalar (a number of
  pandas). A data frame is the list of its rows, each the list of its cells. What Python's
  \<open>int\<close> and string formatting do on a scalar and what \<open>int\<close> does on a \<open>str\<close> are
  parameters, given as \<open>builtins\<close>.
\<close>

datatype 'n cell = NaN | Str string | Scalar 'n

record 'n builtins =
  int_of_scalar :: "'n \<Rightarrow> error + int"
  int_of_str :: "string \<Rightarrow> error + int"
  str_of_scalar :: "'n \<Rightarrow> string"

definition notna :: "'n cell \<Rightarrow> bool" where
  "notna c = (case c of NaN \<Rightarrow> False | _ \<Rightarrow> True)"

text \<open>\<open>row.iloc[k]\<close> for \<open>k \<ge> 0\<close>: \<open>IndexError\<close> when the row has no such column.\<close>

definition iloc :: "'a list \<Rightarrow> nat \<Rightarrow> error + 'a" where
  "iloc row k = (if k < length row then Inr (row ! k) else Inl IndexError)"

definition bind_err :: "error + 'a \<Rightarrow> ('a \<Rightarrow> error + 'b) \<Rightarrow> error + 'b" where
  "bind_err m f = (case m of Inl e \<Rightarrow> Inl e | Inr x \<Rightarrow> f x)"

text \<open>\<open>df.empty\<close>: no rows or no columns.\<close>

definition df_empty :: "'n cell list list \<Rightarrow> bool" where
  "df_empty df = (case df of [] \<Rightarrow> True | row # _ \<Rightarrow> row = [])"

text \<open>\<open>int(c)\<close> on a cell; \<open>int\<close> of a missing value raises \<open>ValueError\<close>.\<close>

definition py_int :: "'n builtins \<Rightarrow> 'n cell \<Rightarrow> error + int" where
  "py_int B c = (case c of NaN \<Rightarrow> Inl ValueError | Str s \<Rightarrow> int_of_str B s | Scalar n \<Rightarrow> int_of_scalar B n)"

text \<open>A cell inside an f-string.\<close>

definition format_cell :: "'n builtins \<Rightarrow> 'n cell \<Rightarrow> string" where
  "format_cell B c = (case c of NaN \<Rightarrow> ''nan'' | Str s \<Rightarrow> s | Scalar n \<Rightarrow> str_of_scalar B n)"

text \<open>The dictionaries appended to \<open>event_data\<close>; the keys are 1st, 8th, 9th and 16th.\<close>

record 'n places =
  p1st :: "'n cell"
  p8th :: "'n cell"
  p9th :: "'n cell"
  p16th :: "'n cell"

record 'n event_row =
  year :: int
  prelims :: "'n places"
  finals :: "'n places"

subsection \<open>One table block\<close>

definition rowcolor_even :: string where
  "rowcolor_even = bs # ''rowcolor{gray!10}''"

definition rowcolor_odd :: string where
  "rowcolor_odd = bs # ''rowcolor{white}''"

definition begin_tabular :: string where
  "begin_tabular =
     bs # ''begin{tabular}{|>{'' @ bs # ''columncolor{blue!20}}c|c|c|c|c|c|c|c|c|}''"

definition row_line :: "'n builtins \<Rightarrow> 'n event_row \<Rightarrow> string" where
  "row_line B d =
     str_int (year d) @ '' & '' @ format_cell B (p1st (prelims d)) @ '' & '' @
     format_cell B (p8th (prelims d)) @ '' & '' @ format_cell B (p9th (prelims d)) @ '' & '' @
     format_cell B (p16th (prelims d)) @ '' & '' @ format_cell B (p1st (finals d)) @ '' & '' @
     format_cell B (p8th (finals d)) @ '' & '' @ format_cell B (p9th (finals d)) @ '' & '' @
     format_cell B (p16th (finals d)) @ '' '' @ [bs, bs]"

text \<open>The loop \<open>for i, data in enumerate(event_data)\<close>, from index \<open>i\<close> on.\<close>

fun data_lines :: "'n builtins \<Rightarrow> nat \<Rightarrow> 'n event_row list \<Rightarrow> string list" where
  "data_lines B i [] = []"
| "data_lines B i (d # ds) =
     (if i mod 2 = 0 then rowcolor_even else rowcolor_odd) # row_line B d # data_lines B (Suc i) ds"

definition create_event_latex :: "'n builtins \<Rightarrow> string \<Rightarrow> 'n event_row list \<Rightarrow> 'n cell list \<Rightarrow> string list" where
  "create_event_latex B event_name event_data headers =
     [bs # ''textbf{'' @ event_name @ ''}'',
      [],
      bs # ''begin{flushleft}'',
      begin_tabular,
      bs # ''hline'',
      bs # ''rowcolor{blue!30}'',
      ''Year & '' @ bs # ''multicolumn{4}{c|}{Prelims} & '' @ bs # ''multicolumn{4}{c|}{Finals} '' @ [bs, bs],
      bs # ''cline{2-9}'',
      bs # ''rowcolor{blue!30}'',
      ''& 1st & 8th & 9th & 16th & 1st & 8th & 9th & 16th '' @ [bs, bs],
      bs # ''hline'']
     @ data_lines B 0 event_data
     @ [bs # ''hline'',
        bs # ''end{tabular}'',
        bs # ''end{flushleft}'',
        []]"

subsection \<open>Grouping the rows into events\<close>

text \<open>\<open>row.iloc[k] if pd.notna(row.iloc[k]) else ''\<close>.\<close>

definition value_or_blank :: "'n cell list \<Rightarrow> nat \<Rightarrow> error + 'n cell" where
  "value_or_blank row k = bind_err (iloc row k) (\<lambda>c. Inr (if notna c then c else Str []))"

definition read_row :: "int \<Rightarrow> 'n cell list \<Rightarrow> error + 'n event_row" where
  "read_row y row =
     bind_err (value_or_blank row 2) (\<lambda>a1.
     bind_err (value_or_blank row 3) (\<lambda>a8.
     bind_err (value_or_blank row 4) (\<lambda>a9.
     bind_err (value_or_blank row 5) (\<lambda>a16.
     bind_err (value_or_blank row 7) (\<lambda>b1.
     bind_err (value_or_blank row 8) (\<lambda>b8.
     bind_err (value_or_blank row 9) (\<lambda>b9.
     bind_err (value_or_blank row 10) (\<lambda>b16.
       Inr \<lparr>year = y,
            prelims = \<lparr>p1st = a1, p8th = a8, p9th = a9, p16th = a16\<rparr>,
            finals = \<lparr>p1st = b1, p8th = b8, p9th = b9, p16th = b16\<rparr>\<rparr>))))))))"

text \<open>
  The test \<open>pd.notna(row.iloc[0]) and row.iloc[0].strip()\<close> on the first cell: the stripped
  event name when the row starts an event. A scalar has no \<open>strip\<close>.
\<close>

definition new_event_name :: "'n cell \<Rightarrow> error + string option" where
  "new_event_name c =
     (case c of
        NaN \<Rightarrow> Inr None
      | Str s \<Rightarrow> Inr (if strip s \<noteq> [] then Some (strip s) else None)
      | Scalar n \<Rightarrow> Inl AttributeError)"

text \<open>
  \<open>if current_event and event_data: latex_content.extend(create_event_latex(...))\<close>, which
  the function does before a new event starts and after the last row.
\<close>

definition flush_event ::
  "'n builtins \<Rightarrow> 'n cell list \<Rightarrow> string list \<Rightarrow> string option \<Rightarrow> 'n event_row list \<Rightarrow> string list" where
  "flush_event B headers latex_content current_event event_data =
     (case current_event of
        None \<Rightarrow> latex_content
      | Some name \<Rightarrow>
          if name \<noteq> [] \<and> event_data \<noteq> []
          then latex_content @ create_event_latex B name event_data headers
          else latex_content)"

text \<open>
  The body of the loop over the rows, on the loop's variables \<open>latex_content\<close>,
  \<open>current_event\<close> and \<open>event_data\<close>.
\<close>

definition scan_row ::
  "'n builtins \<Rightarrow> 'n cell list \<Rightarrow> string list \<times> string option \<times> 'n event_row list \<Rightarrow> 'n cell list
     \<Rightarrow> error + string list \<times> string option \<times> 'n event_row list" where
  "scan_row B headers st row =
     (case st of (latex_content, current_event, event_data) \<Rightarrow>
        bind_err (iloc row 0) (\<lambda>c0.
        bind_err (new_event_name c0) (\<lambda>marker.
          (let (lc, ce, ed) =
                 (case marker of
                    Some name \<Rightarrow>
                      (flush_event B headers latex_content current_event event_data, Some name, [])
                  | None \<Rightarrow> (latex_content, current_event, event_data))
           in bind_err (iloc row 1) (\<lambda>c1.
                if notna c1
                then bind_err (py_int B c1) (\<lambda>y.
                       if y \<noteq> 0
                       then bind_err (read_row y row) (\<lambda>d. Inr (lc, ce, ed @ [d]))
                       else Inr (lc, ce, ed))
                else Inr (lc, ce, ed))))))"

fun process_rows ::
  "'n builtins \<Rightarrow> 'n cell list \<Rightarrow> string list \<times> string option \<times> 'n event_row list \<Rightarrow> 'n cell list list
     \<Rightarrow> error + string list \<times> string option \<times> 'n event_row list" where
  "process_rows B headers st [] = Inr st"
| "process_rows B headers st (row # rows) =
     (case scan_row B headers st row of
        Inl e \<Rightarrow> Inl e
      | Inr st' \<Rightarrow> process_rows B headers st' rows)"

text \<open>
  The list \<open>latex_content\<close> that \<open>create_latex_content_from_data\<close> joins at its last line,
  for a data frame of at least five rows: row 4 is read as \<open>headers\<close>, the loop starts at
  row 5, and the last event is flushed after it.
\<close>

definition event_lines :: "'n builtins \<Rightarrow> 'n cell list list \<Rightarrow> error + string list" where
  "event_lines B df =
     (case iloc df 4 of
        Inl e \<Rightarrow> Inl e
      | Inr headers \<Rightarrow>
          (case process_rows B headers ([], None, []) (drop 5 df) of
             Inl e \<Rightarrow> Inl e
           | Inr (latex_content, current_event, event_data) \<Rightarrow>
               Inr (flush_event B headers latex_content current_event event_data)))"

text \<open>\<open>"\n".join(lines)\<close>.\<close>

fun join_lines :: "string list \<Rightarrow> string" where
  "join_lines [] = []"
| "join_lines [x] = x"
| "join_lines (x # y # ys) = x @ [nl] @ join_lines (y # ys)"

definition create_latex_content_from_data ::
  "'n builtins \<Rightarrow> 'n cell list list option \<Rightarrow> string \<Rightarrow> string \<Rightarrow> error + string" where
  "create_latex_content_from_data B df event_type gender =
     (case df of
        None \<Rightarrow> Inr (''% No data available for '' @ event_type @ '' '' @ gender @ [nl])
      | Some rows \<Rightarrow>
          if df_empty rows
          then Inr (''% No data available for '' @ event_type @ '' '' @ gender @ [nl])
          else if length rows < 5
          then Inr (''% Insufficient data for '' @ event_type @ '' '' @ gender @ [nl])
          else (case event_lines B rows of
                  Inl e \<Rightarrow> Inl e
                | Inr latex_content \<Rightarrow> Inr (join_lines latex_content)))"

subsection \<open>Counting blocks and events\<close>

text \<open>
  Every table block has one line that opens the \<open>tabular\<close> environment, and no other line
  that \<open>create_event_latex\<close> builds is equal to it; the number of blocks in a list of lines
  is the number of these lines.
\<close>

definition count_blocks :: "string list \<Rightarrow> nat" where
  "count_blocks ls = length (filter (\<lambda>l. l = begin_tabular) ls)"

text \<open>
  The words of the specification on the grouping of rows: a row whose first column is not
  blank is an event marker; an event is a marker row with the rows after it up to the next
  marker; a row has a usable year when its second column converts to an integer other than
  zero.
\<close>

definition is_marker :: "'n cell list \<Rightarrow> bool" where
  "is_marker row = (case row of Str s # _ \<Rightarrow> strip s \<noteq> [] | _ \<Rightarrow> False)"

definition usable_year :: "'n builtins \<Rightarrow> 'n cell list \<Rightarrow> bool" where
  "usable_year B row =
     (case iloc row 1 of
        Inl e \<Rightarrow> False
      | Inr c \<Rightarrow> notna c \<and> (case py_int B c of Inl e \<Rightarrow> False | Inr y \<Rightarrow> y \<noteq> 0))"

function event_groups :: "'n cell list list \<Rightarrow> 'n cell list list list" where
  "event_groups [] = []"
| "event_groups (r # rs) =
     (if is_marker r
      then (r # takeWhile (\<lambda>x. \<not> is_marker x) rs) # event_groups (dropWhile (\<lambda>x. \<not> is_marker x) rs)
      else event_groups rs)"
  by pat_completeness auto
termination
  by (relation "measure length") (auto simp: less_Suc_eq_le length_dropWhile_le)

section \<open>Sample inputs\<close>

text \<open>
  Built-ins for sheets whose scalars are integers: \<open>int\<close> is the identity on them and
  they are printed in decimal; no \<open>str\<close> cell of these sheets is a number.
\<close>

definition int_builtins :: "int builtins" where
  "int_builtins = \<lparr>int_of_scalar = Inr, int_of_str = (\<lambda>s. Inl ValueError), str_of_scalar = str_int\<rparr>"

text \<open>The two rows of the event 100 Free, for the years 2021 and 2022.\<close>

definition free_100_data :: "int event_row list" where
  "free_100_data =
     [\<lparr>year = 2021,
       prelims = \<lparr>p1st = Scalar 1, p8th = Scalar 8, p9th = Scalar 9, p16th = Scalar 16\<rparr>,
       finals = \<lparr>p1st = Scalar 1, p8th = Scalar 8, p9th = Scalar 9, p16th = Scalar 16\<rparr>\<rparr>,
      \<lparr>year = 2022,
       prelims = \<lparr>p1st = Scalar 2, p8th = Scalar 9, p9th = Scalar 10, p16th = Scalar 17\<rparr>,
       finals = \<lparr>p1st = Scalar 2, p8th = Scalar 9, p9th = Scalar 10, p16th = Scalar 17\<rparr>\<rparr>]"

text \<open>
  A sheet of five leading rows, the event 100 Free with its two years, and an event marker
  that no year follows; and a sheet whose only event marker has no year.
\<close>

definition free_100_sheet :: "int cell list list" where
  "free_100_sheet =
     replicate 5 [NaN, NaN] @
     [[Str ''100 Free'', Scalar 2021, Scalar 1, Scalar 8, Scalar 9, Scalar 16, NaN,
       Scalar 1, Scalar 8, Scalar 9, Scalar 16],
      [NaN, Scalar 2022, Scalar 2, Scalar 9, Scalar 10, Scalar 17, NaN,
       Scalar 2, Scalar 9, Scalar 10, Scalar 17],
      [Str ''200 Free'', NaN]]"

definition unmarked_sheet :: "int cell list list" where
  "unmarked_sheet = replicate 5 [NaN, NaN] @ [[Str ''100 Free'', NaN]]"

text \<open>
  Five blank leading rows, a marker row without a year, and five leading rows that would
  read as an event with a year, were they scanned.
\<close>

definition blank_rows :: "int cell list list" where
  "blank_rows = replicate 5 [NaN, NaN]"

definition lone_marker :: "int cell list list" where
  "lone_marker = [[Str ''200 Free'', NaN]]"

definition decoy_rows :: "int cell list list" where
  "decoy_rows = replicate 5 [Str ''Decoy'', Scalar 1999]"

text \<open>
  Section records as the extractor builds them, four records named A, A, B, A with a table
  that sends both names to \<open>team\<close>, a document of one section, and a world without files.
\<close>

definition sec :: "string \<Rightarrow> string \<Rightarrow> string \<Rightarrow> section_rec" where
  "sec name sx body =
     \<lparr>section_name = name, sex = sx, subsection_text = subsection_open @ name @ ''}'',
      subsubsection_text = subsubsection_open @ sx @ ''}'', content = body\<rparr>"

definition abab_sections :: "section_rec list" where
  "abab_sections = [sec ''A'' ''Men'' ''t1'', sec ''A'' ''Women'' ''t2'', sec ''B'' ''Men'' ''t3'', sec ''A'' ''Men'' ''t4'']"

definition ab_mapping :: "(string \<times> string) list" where
  "ab_mapping = [(''A'', ''team''), (''B'', ''team'')]"

definition pp_doc :: string where
  "pp_doc = subsection_open @ ''CMS at PP}'' @ [nl] @ subsubsection_open @ ''Men}'' @ [nl] @ ''times'' @ [nl]"

definition empty_world :: world where
  "empty_world = \<lparr>files = Map.empty, stdout = [], draws = 0\<rparr>"

text \<open>
  A document with some text, the section of \<open>pp_doc\<close>, a heading that no sub-heading
  follows, a second section and the end marker.
\<close>

definition two_section_doc :: string where
  "two_section_doc =
     ''intro '' @ pp_doc @ subsection_open @ ''Lonely} text '' @
     subsection_open @ ''NCAA TOP 20}'' @ subsubsection_open @ ''Athena}'' @ '' x '' @ end_document @ [nl]"

text \<open>
  A document of two sections whose names differ only in case; the table has the first name
  only.
\<close>

definition mixed_doc :: string where
  "mixed_doc = pp_doc @ subsection_open @ ''cms at pp}'' @ subsubsection_open @ ''Women}'' @ ''lower''"

text \<open>
  A document whose first body holds commands of its own, among them one that ends an
  environment, followed by a heading that no sub-heading follows, a second section and the
  end marker.
\<close>

definition table_doc :: string where
  "table_doc =
     subsection_open @ ''SCIAC Records}'' @ [nl] @ subsubsection_open @ ''Stag}'' @ [nl] @
     bs # ''begin{tabular} a '' @ bs # ''end{tabular}'' @ [nl] @
     subsection_open @ ''Lonely} text '' @
     subsection_open @ ''NCAA TOP 20}'' @ subsubsection_open @ ''Athena}'' @ '' x '' @
     end_document @ [nl]"

section \<open>Auxiliary notions\<close>

text \<open>An event is pending when \<open>if current_event and event_data\<close> holds.\<close>

definition pending :: "string option \<Rightarrow> 'a list \<Rightarrow> bool" where
  "pending ce ed = (case ce of None \<Rightarrow> False | Some n \<Rightarrow> n \<noteq> [] \<and> ed \<noteq> [])"

text \<open>
  The records that \<open>write_section_to_file\<close> keeps for a target (its list
  \<open>file_sections\<close>), and the names of the subsection headings among the writes of a file.
\<close>

definition routed :: "(string \<times> string) list \<Rightarrow> string \<Rightarrow> section_rec list \<Rightarrow> section_rec list" where
  "routed section_mapping target_file sections =
     filter (\<lambda>s. map_of section_mapping (section_name s) = Some target_file) sections"


text \<open>The world of \<open>main\<close> when it enters its loop over the targets.\<close>

definition prologue :: "world \<Rightarrow> section_rec list \<Rightarrow> string list \<Rightarrow> world" where
  "prologue w sections highlight_images =
     w\<lparr>stdout := stdout w @
        [''Extracting sections from generated_latex.tex...'',
         ''Found '' @ str_nat (length sections) @ '' sections'',
         ''Loading highlight images...'',
         ''Found '' @ str_nat (length highlight_images) @ '' highlight images'',
         [nl] @ ''Section mapping:'']
        @ map (\<lambda>(sheet, target). ''  '' @ sheet @ '' -> '' @ target @ ''.tex'') create_section_mapping\<rparr>"

text \<open>
  The words of the specification on what the extractor recognises: a heading, that is
  \<^verbatim>\<open>\subsection{name}\<close> with a name that is not empty and has no closing brace, followed
  after white space only by a sub-heading \<^verbatim>\<open>\subsubsection{sex}\<close> of the same shape.
\<close>

definition heading_with_subheading :: "string \<Rightarrow> bool" where
  "heading_with_subheading s =
     (\<exists>name ws sx t.
        s = subsection_open @ name @ ''}'' @ ws @ subsubsection_open @ sx @ ''}'' @ t \<and>
        name \<noteq> [] \<and> CHR ''}'' \<notin> set name \<and> sx \<noteq> [] \<and> CHR ''}'' \<notin> set sx \<and>
        (\<forall>c\<in>set ws. isspace c))"

text \<open>
  The record that the loop of \<open>extract_sections_from_latex\<close> builds from the three groups
  of a match: the names are the groups without their markers and closing brace.
\<close>

definition inner :: "string \<Rightarrow> string \<Rightarrow> string" where
  "inner lit g = butlast (drop (length lit) g)"

definition section_of_match :: "string \<times> string \<times> string \<Rightarrow> section_rec" where
  "section_of_match m =
     (case m of (g1, g2, g3) \<Rightarrow>
        \<lparr>section_name = inner subsection_open g1, sex = inner subsubsection_open g2,
         subsection_text = g1, subsubsection_text = g2, content = strip g3\<rparr>)"

text \<open>The bodies written into a file, in the order of the writes.\<close>

fun written_contents :: "fwrite list \<Rightarrow> string list" where
  "written_contents [] = []"
| "written_contents (Content c # ws) = c # written_contents ws"
| "written_contents (_ # ws) = written_contents ws"

section \<open>Properties of Pipeline A\<close>

subsection \<open>Row backgrounds\<close>

lemma length_data_lines: "length (data_lines B k ds) = 2 * length ds"
  by (induction ds arbitrary: k) auto

lemma data_lines_nth:
  "i < length ds \<Longrightarrow>
     data_lines B k ds ! (2 * i) = (if even (k + i) then rowcolor_even else rowcolor_odd) \<and>
     data_lines B k ds ! (2 * i + 1) = row_line B (ds ! i)"
proof (induction ds arbitrary: k i)
  case Nil
  then show ?case by simp
next
  case (Cons d ds)
  show ?case
  proof (cases i)
    case 0
    then show ?thesis by (simp add: even_iff_mod_2_eq_zero)
  next
    case (Suc j)
    with Cons.prems have "j < length ds" by simp
    from Cons.IH[OF this, of "Suc k"] Suc show ?thesis by simp
  qed
qed

lemma create_event_latex_nth:
  assumes "j < 2 * length ds"
  shows "create_event_latex B name ds headers ! (11 + j) = data_lines B 0 ds ! j"
  using assms by (simp add: create_event_latex_def nth_append length_data_lines)

lemma str_int_samples:
  "str_int 2021 = ''2021''" "str_int 2022 = ''2022''"
  "str_int 1 = ''1''" "str_int 2 = ''2''" "str_int 8 = ''8''" "str_int 9 = ''9''"
  "str_int 10 = ''10''" "str_int 16 = ''16''" "str_int 17 = ''17''"
  by (simp_all add: str_int_def str_nat.simps digit_char_def)

lemma free_100_lines:
  "data_lines int_builtins 0 free_100_data =
     [rowcolor_even, ''2021 & 1 & 8 & 9 & 16 & 1 & 8 & 9 & 16 '' @ [bs, bs],
      rowcolor_odd, ''2022 & 2 & 9 & 10 & 17 & 2 & 9 & 10 & 17 '' @ [bs, bs]]"
  by (simp add: free_100_data_def row_line_def format_cell_def int_builtins_def str_int_samples)

text \<open>
  Claim C7. A table block is eleven fixed lines, then two lines for each data row, then four
  fixed lines. For the data row of index \<open>i\<close> (from 0) the first of its two lines is the
  background marker, the even one (\<open>gray!10\<close>) when \<open>i\<close> is even and the odd one (\<open>white\<close>)
  when \<open>i\<close> is odd, whatever the year of the row; the second is the row itself. The event
  100 Free with its rows for 2021 and 2022 gives exactly two data rows, the first marked
  even and the second odd.
\<close>

theorem row_background_parity:
  "length (create_event_latex B name event_data headers) = 15 + 2 * length event_data \<and>
   (\<forall>i < length event_data.
      create_event_latex B name event_data headers ! (11 + 2 * i)
        = (if even i then rowcolor_even else rowcolor_odd) \<and>
      create_event_latex B name event_data headers ! (12 + 2 * i) = row_line B (event_data ! i)) \<and>
   create_event_latex int_builtins ''100 Free'' free_100_data headers' =
     take 11 (create_event_latex int_builtins ''100 Free'' [] headers') @
     [rowcolor_even, ''2021 & 1 & 8 & 9 & 16 & 1 & 8 & 9 & 16 '' @ [bs, bs],
      rowcolor_odd, ''2022 & 2 & 9 & 10 & 17 & 2 & 9 & 10 & 17 '' @ [bs, bs]] @
     drop 11 (create_event_latex int_builtins ''100 Free'' [] headers')"
proof (intro conjI allI impI)
  show "length (create_event_latex B name event_data headers) = 15 + 2 * length event_data"
    by (simp add: create_event_latex_def length_data_lines)
next
  fix i assume i: "i < length event_data"
  then have "2 * i < 2 * length event_data" by simp
  from create_event_latex_nth[OF this, of B name headers] data_lines_nth[OF i, of B 0]
  show "create_event_latex B name event_data headers ! (11 + 2 * i)
        = (if even i then rowcolor_even else rowcolor_odd)"
    by simp
next
  fix i assume i: "i < length event_data"
  then have "2 * i + 1 < 2 * length event_data" by simp
  from create_event_latex_nth[OF this, of B name headers] data_lines_nth[OF i, of B 0]
  show "create_event_latex B name event_data headers ! (12 + 2 * i) = row_line B (event_data ! i)"
    by (simp add: add.commute add.left_commute)
next
  show "create_event_latex int_builtins ''100 Free'' free_100_data headers' =
     take 11 (create_event_latex int_builtins ''100 Free'' [] headers') @
     [rowcolor_even, ''2021 & 1 & 8 & 9 & 16 & 1 & 8 & 9 & 16 '' @ [bs, bs],
      rowcolor_odd, ''2022 & 2 & 9 & 10 & 17 & 2 & 9 & 10 & 17 '' @ [bs, bs]] @
     drop 11 (create_event_latex int_builtins ''100 Free'' [] headers')"
    unfolding create_event_latex_def free_100_lines by simp
qed

theorem row_background_parity_witness:
  "(1::nat) < length free_100_data \<and>
   create_event_latex int_builtins ''100 Free'' free_100_data [] ! 13 = rowcolor_odd \<and>
   create_event_latex int_builtins ''100 Free'' free_100_data [] ! 14
     = ''2022 & 2 & 9 & 10 & 17 & 2 & 9 & 10 & 17 '' @ [bs, bs]"
proof -
  have l: "(1::nat) < length free_100_data" by (simp add: free_100_data_def)
  have r: "row_line int_builtins (free_100_data ! 1) = ''2022 & 2 & 9 & 10 & 17 & 2 & 9 & 10 & 17 '' @ [bs, bs]"
    by (simp add: free_100_data_def row_line_def format_cell_def int_builtins_def str_int_samples)
  have "\<forall>i < length free_100_data.
      create_event_latex int_builtins ''100 Free'' free_100_data [] ! (11 + 2 * i)
        = (if even i then rowcolor_even else rowcolor_odd) \<and>
      create_event_latex int_builtins ''100 Free'' free_100_data [] ! (12 + 2 * i)
        = row_line int_builtins (free_100_data ! i)"
    using row_background_parity[of int_builtins "''100 Free''" free_100_data "[]" "[]"] by blast
  with l have
    "create_event_latex int_builtins ''100 Free'' free_100_data [] ! (11 + 2 * 1)
        = (if even (1::nat) then rowcolor_even else rowcolor_odd) \<and>
     create_event_latex int_builtins ''100 Free'' free_100_data [] ! (12 + 2 * 1)
        = row_line int_builtins (free_100_data ! 1)"
    by blast
  with l r show ?thesis by simp
qed

subsection \<open>Blocks and events\<close>

lemma count_blocks_append: "count_blocks (xs @ ys) = count_blocks xs + count_blocks ys"
  by (simp add: count_blocks_def)

lemma row_line_not_begin: "row_line B d \<noteq> begin_tabular"
proof
  assume "row_line B d = begin_tabular"
  then have "last (row_line B d) = last begin_tabular" by simp
  then show False by (simp add: row_line_def begin_tabular_def bs_def)
qed

lemma rowcolor_not_begin: "rowcolor_even \<noteq> begin_tabular" "rowcolor_odd \<noteq> begin_tabular"
  by (simp_all add: rowcolor_even_def rowcolor_odd_def begin_tabular_def)

lemma count_blocks_data_lines: "count_blocks (data_lines B k ds) = 0"
  by (induction ds arbitrary: k)
     (simp_all add: count_blocks_def row_line_not_begin rowcolor_not_begin)

lemma count_blocks_event: "count_blocks (create_event_latex B name ds headers) = 1"
proof -
  have "count_blocks (create_event_latex B name [] headers) = 1"
    by (simp add: create_event_latex_def count_blocks_def begin_tabular_def bs_def)
  moreover have "count_blocks (create_event_latex B name ds headers)
      = count_blocks (create_event_latex B name [] headers) + count_blocks (data_lines B 0 ds)"
    by (simp add: create_event_latex_def count_blocks_def)
  ultimately show ?thesis by (simp add: count_blocks_data_lines)
qed

lemma count_blocks_flush:
  "count_blocks (flush_event B h lc ce ed) = count_blocks lc + (if pending ce ed then 1 else 0)"
  by (simp add: flush_event_def pending_def count_blocks_append count_blocks_event split: option.splits)

lemma scan_row_Inr:
  assumes "scan_row B h (lc, ce, ed) row = Inr (lc', ce', ed')"
  shows "lc' = (if is_marker row then flush_event B h lc ce ed else lc)"
    and "if is_marker row then (\<exists>n. ce' = Some n \<and> n \<noteq> []) else ce' = ce"
    and "ed' \<noteq> [] \<longleftrightarrow> (usable_year B row \<or> (\<not> is_marker row \<and> ed \<noteq> []))"
  using assms
  by (auto simp: scan_row_def bind_err_def iloc_def new_event_name_def is_marker_def usable_year_def
      split: sum.splits cell.splits if_splits option.splits list.splits)


lemma event_groups_dropWhile:
  "event_groups (dropWhile (\<lambda>x. \<not> is_marker x) rows) = event_groups rows"
  by (induction rows) auto

lemma process_rows_blocks:
  "process_rows B h (lc, ce, ed) rows = Inr (lc', ce', ed') \<Longrightarrow>
   count_blocks (flush_event B h lc' ce' ed') =
     count_blocks lc
     + (if (case ce of None \<Rightarrow> False | Some n \<Rightarrow> n \<noteq> []) \<and>
           (ed \<noteq> [] \<or> list_ex (usable_year B) (takeWhile (\<lambda>x. \<not> is_marker x) rows))
        then 1 else 0)
     + length (filter (list_ex (usable_year B)) (event_groups rows))"
proof (induction rows arbitrary: lc ce ed)
  case Nil
  then show ?case by (simp add: count_blocks_flush pending_def split: option.splits)
next
  case (Cons row rows)
  from Cons.prems obtain lc1 ce1 ed1 where
    s: "scan_row B h (lc, ce, ed) row = Inr (lc1, ce1, ed1)" and
    p: "process_rows B h (lc1, ce1, ed1) rows = Inr (lc', ce', ed')"
    by (auto split: sum.splits)
  note ih = Cons.IH[OF p]
  note sr = scan_row_Inr[OF s]
  show ?case
  proof (cases "is_marker row")
    case True
    with sr obtain n where n: "ce1 = Some n" "n \<noteq> []" by auto
    from True sr have lc1: "lc1 = flush_event B h lc ce ed" by simp
    from True sr have ed1: "ed1 \<noteq> [] \<longleftrightarrow> usable_year B row" by simp
    show ?thesis
      using ih True n ed1
      by (simp add: lc1 count_blocks_flush pending_def event_groups_dropWhile split: option.splits)
  next
    case False
    with sr have e: "lc1 = lc" "ce1 = ce" "ed1 \<noteq> [] \<longleftrightarrow> (usable_year B row \<or> ed \<noteq> [])" by auto
    show ?thesis
      using ih False e by (auto split: option.splits)
  qed
qed

text \<open>
  Claim C3, as amended. When the rendering of a sheet completes, the number of table blocks
  among its lines is the number of events, read from row 5 on, that have at least one row
  with a usable year: a marker row with the rows after it up to the next marker counts only
  if one of these rows has a second column that is present and converts to an integer other
  than zero. An event marker with no such row emits no block.
\<close>

theorem blocks_are_events_with_data:
  "event_lines B df = Inr ls \<Longrightarrow>
     count_blocks ls = length (filter (list_ex (usable_year B)) (event_groups (drop 5 df)))"
proof -
  assume a: "event_lines B df = Inr ls"
  then obtain h lc ce ed where
    p: "process_rows B h ([], None, []) (drop 5 df) = Inr (lc, ce, ed)" and
    l: "ls = flush_event B h lc ce ed"
    by (auto simp: event_lines_def split: sum.splits)
  from process_rows_blocks[OF p] l show ?thesis by (simp add: count_blocks_def)
qed

text \<open>
  The claim as first stated, that the blocks are as many as the non-blank first columns,
  fails on a sheet whose only marker has no year: no block, one marker.
\<close>

theorem blocks_not_markers_counterexample:
  "event_lines int_builtins unmarked_sheet = Inr [] \<and>
   count_blocks [] \<noteq> length (filter is_marker unmarked_sheet)"
  by (simp add: event_lines_def unmarked_sheet_def iloc_def scan_row_def bind_err_def new_event_name_def
      strip_def isspace_def notna_def flush_event_def count_blocks_def is_marker_def numeral_eq_Suc)


lemma free_100_sheet_lines:
  "event_lines int_builtins free_100_sheet
     = Inr (create_event_latex int_builtins ''100 Free'' free_100_data [NaN, NaN])"
  by (simp add: event_lines_def free_100_sheet_def free_100_data_def iloc_def scan_row_def bind_err_def
      new_event_name_def strip_def isspace_def notna_def py_int_def int_builtins_def read_row_def
      value_or_blank_def flush_event_def nth_append)

theorem blocks_are_events_with_data_witness:
  "event_lines int_builtins free_100_sheet
     = Inr (create_event_latex int_builtins ''100 Free'' free_100_data [NaN, NaN]) \<and>
   count_blocks (create_event_latex int_builtins ''100 Free'' free_100_data [NaN, NaN])
     = length (filter (list_ex (usable_year int_builtins)) (event_groups (drop 5 free_100_sheet))) \<and>
   length (filter (list_ex (usable_year int_builtins)) (event_groups (drop 5 free_100_sheet))) = 1 \<and>
   length (filter is_marker (drop 5 free_100_sheet)) = 2"
proof -
  have "length (filter (list_ex (usable_year int_builtins)) (event_groups (drop 5 free_100_sheet))) = 1"
    by (simp add: free_100_sheet_def is_marker_def usable_year_def iloc_def notna_def py_int_def
        int_builtins_def strip_def isspace_def)
  moreover have "length (filter is_marker (drop 5 free_100_sheet)) = 2"
    by (simp add: free_100_sheet_def is_marker_def strip_def isspace_def)
  ultimately show ?thesis
    using blocks_are_events_with_data[OF free_100_sheet_lines] free_100_sheet_lines by simp
qed

subsection \<open>The leading rows\<close>

lemma create_event_latex_headers:
  "create_event_latex B name ds h = create_event_latex B name ds h'"
  by (simp add: create_event_latex_def)

lemma flush_event_headers: "flush_event B h lc ce ed = flush_event B h' lc ce ed"
  using create_event_latex_headers[of B _ ed h h']
  by (simp add: flush_event_def split: option.splits)

lemma scan_row_headers: "scan_row B h st row = scan_row B h' st row"
  by (cases st)
     (auto simp: scan_row_def bind_err_def flush_event_headers[of B h _ _ _ h']
           split: sum.splits option.splits)

lemma process_rows_headers: "process_rows B h st rows = process_rows B h' st rows"
proof (induction rows arbitrary: st)
  case Nil
  show ?case by simp
next
  case (Cons row rows)
  show ?case using Cons.IH scan_row_headers[of B h st row h'] by (simp split: sum.splits)
qed

lemma event_lines_prefix:
  assumes "length pre = 5" "length pre' = 5"
  shows "event_lines B (pre @ rows) = event_lines B (pre' @ rows)"
proof -
  have "process_rows B ((pre @ rows) ! 4) ([], None, []) rows
      = process_rows B ((pre' @ rows) ! 4) ([], None, []) rows"
    by (rule process_rows_headers)
  moreover have "\<And>lc ce ed. flush_event B ((pre @ rows) ! 4) lc ce ed = flush_event B ((pre' @ rows) ! 4) lc ce ed"
    by (rule flush_event_headers)
  ultimately show ?thesis
    using assms by (simp add: event_lines_def iloc_def split: sum.splits prod.splits)
qed

text \<open>
  Claim C10, as amended. For a sheet of at least five rows (and at least one column) the
  output does not depend on the rows 0 to 4: replacing them by any other five rows leaves
  it unchanged, so none of them is rendered as data and row 4, read as headers, never
  reaches the output. A sheet that is not empty and has fewer than five rows gives only the
  insufficient-data comment; an empty sheet (no rows, or no columns) gives only the no-data
  comment.
\<close>

theorem fixed_row_offset:
  "(length pre = 5 \<and> length pre' = 5 \<and> \<not> df_empty (pre @ rows) \<and> \<not> df_empty (pre' @ rows) \<longrightarrow>
      create_latex_content_from_data B (Some (pre @ rows)) event_type gender
        = create_latex_content_from_data B (Some (pre' @ rows)) event_type gender) \<and>
   (length df < 5 \<and> \<not> df_empty df \<longrightarrow>
      create_latex_content_from_data B (Some df) event_type gender
        = Inr (''% Insufficient data for '' @ event_type @ '' '' @ gender @ [nl])) \<and>
   (df_empty df0 \<longrightarrow>
      create_latex_content_from_data B (Some df0) event_type gender
        = Inr (''% No data available for '' @ event_type @ '' '' @ gender @ [nl]))"
proof (intro conjI impI)
  assume "length pre = 5 \<and> length pre' = 5 \<and> \<not> df_empty (pre @ rows) \<and> \<not> df_empty (pre' @ rows)"
  then show "create_latex_content_from_data B (Some (pre @ rows)) event_type gender
        = create_latex_content_from_data B (Some (pre' @ rows)) event_type gender"
    using event_lines_prefix[of pre pre' B rows]
    by (simp add: create_latex_content_from_data_def)
next
  assume "length df < 5 \<and> \<not> df_empty df"
  then show "create_latex_content_from_data B (Some df) event_type gender
        = Inr (''% Insufficient data for '' @ event_type @ '' '' @ gender @ [nl])"
    by (simp add: create_latex_content_from_data_def)
next
  assume "df_empty df0"
  then show "create_latex_content_from_data B (Some df0) event_type gender
        = Inr (''% No data available for '' @ event_type @ '' '' @ gender @ [nl])"
    by (simp add: create_latex_content_from_data_def)
qed

text \<open>
  The claim as first stated, that every sheet of fewer than five rows gives the
  insufficient-data comment, fails on the sheet without rows.
\<close>

theorem short_sheet_comment_counterexample:
  "create_latex_content_from_data int_builtins (Some []) ''SCIAC'' ''men''
     \<noteq> Inr (''% Insufficient data for SCIAC men'' @ [nl])"
  by (simp add: create_latex_content_from_data_def df_empty_def)

theorem fixed_row_offset_witness:
  "length blank_rows = 5 \<and> length decoy_rows = 5 \<and>
   \<not> df_empty (blank_rows @ lone_marker) \<and> \<not> df_empty (decoy_rows @ lone_marker) \<and>
   create_latex_content_from_data int_builtins (Some (blank_rows @ lone_marker)) ''SCIAC'' ''men''
     = create_latex_content_from_data int_builtins (Some (decoy_rows @ lone_marker)) ''SCIAC'' ''men'' \<and>
   length (take 1 blank_rows) < 5 \<and> \<not> df_empty (take 1 blank_rows) \<and>
   create_latex_content_from_data int_builtins (Some (take 1 blank_rows)) ''SCIAC'' ''men''
     = Inr (''% Insufficient data for '' @ ''SCIAC'' @ '' '' @ ''men'' @ [nl]) \<and>
   df_empty (take 0 blank_rows) \<and>
   create_latex_content_from_data int_builtins (Some (take 0 blank_rows)) ''SCIAC'' ''men''
     = Inr (''% No data available for '' @ ''SCIAC'' @ '' '' @ ''men'' @ [nl])"
proof -
  have h1: "length blank_rows = 5 \<and> length decoy_rows = 5 \<and>
      \<not> df_empty (blank_rows @ lone_marker) \<and> \<not> df_empty (decoy_rows @ lone_marker)"
    by (simp add: blank_rows_def decoy_rows_def df_empty_def numeral_eq_Suc)
  have h2: "length (take 1 blank_rows) < 5 \<and> \<not> df_empty (take 1 blank_rows)"
    by (simp add: blank_rows_def df_empty_def numeral_eq_Suc)
  have h3: "df_empty (take 0 blank_rows)"
    by (simp add: df_empty_def)
  note t = fixed_row_offset[of blank_rows decoy_rows lone_marker
      int_builtins "''SCIAC''" "''men''" "take 1 blank_rows" "take 0 blank_rows"]
  from t h1 have c1:
    "create_latex_content_from_data int_builtins (Some (blank_rows @ lone_marker)) ''SCIAC'' ''men''
     = create_latex_content_from_data int_builtins (Some (decoy_rows @ lone_marker)) ''SCIAC'' ''men''"
    by (elim conjE) (erule mp, intro conjI; assumption)
  from t h2 have c2:
    "create_latex_content_from_data int_builtins (Some (take 1 blank_rows)) ''SCIAC'' ''men''
     = Inr (''% Insufficient data for '' @ ''SCIAC'' @ '' '' @ ''men'' @ [nl])"
    by (elim conjE) (erule mp, intro conjI; assumption)
  from t h3 have c3:
    "create_latex_content_from_data int_builtins (Some (take 0 blank_rows)) ''SCIAC'' ''men''
     = Inr (''% No data available for '' @ ''SCIAC'' @ '' '' @ ''men'' @ [nl])"
    by (elim conjE) (erule mp, assumption)
  from h1 h2 h3 c1 c2 c3 show ?thesis by (elim conjE) (intro conjI; assumption)
qed

section \<open>Properties of Pipeline B\<close>

subsection \<open>The assembler\<close>


lemma write_groups_ok:
  "imgs \<noteq> [] \<Longrightarrow> fst (snd (write_groups cur ss xm imgs rnd k)) = None"
  by (induction ss arbitrary: cur k) (simp_all add: random_choice_def Let_def split_beta)

lemma write_groups_empty_pool:
  "write_groups cur (s # ss) xm [] rnd k =
     ((if cur \<noteq> Some (section_name s)
       then (if cur \<noteq> None then [Spacing] else []) @ [Heading (section_name s)] else []),
      Some IndexError, k)"
  by (simp add: random_choice_def Let_def)


lemma write_section_to_file_routed:
  "write_section_to_file sections t sm xm imgs rnd w =
     (if routed sm t sections = []
      then (None, w\<lparr>stdout := stdout w @ [''No sections found for '' @ t @ ''.tex'']\<rparr>)
      else
        (let r = write_groups None (routed sm t sections) xm imgs rnd (draws w);
             w' = w\<lparr>files := (files w)(output_path t \<mapsto> header_writes t @ fst r),
                    draws := snd (snd r)\<rparr>
         in case fst (snd r) of
              Some err \<Rightarrow> (Some err, w')
            | None \<Rightarrow>
                (None, w'\<lparr>stdout := stdout w' @
                   [''Written '' @ str_nat (length (routed sm t sections)) @ '' sections to '' @ t
                      @ ''.tex with artistic title pages'']\<rparr>)))"
  by (simp add: write_section_to_file_def routed_def Let_def split_beta split: option.splits)


text \<open>
  Claim C5. When no record is routed to a destination, the assembler leaves every file as it
  was, raises nothing and prints the diagnostic \<open>No sections found for\<close> that destination.
  When at least one record is routed to it, the files change at exactly one path, the
  destination's own, which receives the header and what the grouping loop writes.
\<close>

theorem one_file_per_destination:
  "write_section_to_file sections t sm xm imgs rnd w = (e, w') \<Longrightarrow>
     (routed sm t sections = [] \<longrightarrow>
        e = None \<and> files w' = files w \<and>
        stdout w' = stdout w @ [''No sections found for '' @ t @ ''.tex'']) \<and>
     (routed sm t sections \<noteq> [] \<longrightarrow>
        files w' = (files w)(output_path t \<mapsto>
          header_writes t @ fst (write_groups None (routed sm t sections) xm imgs rnd (draws w))))"
proof (cases "routed sm t sections = []")
  case True
  assume "write_section_to_file sections t sm xm imgs rnd w = (e, w')"
  with True show ?thesis by (auto simp add: write_section_to_file_routed)
next
  case False
  assume "write_section_to_file sections t sm xm imgs rnd w = (e, w')"
  with False have "files w' = (files w)(output_path t \<mapsto>
          header_writes t @ fst (write_groups None (routed sm t sections) xm imgs rnd (draws w)))"
    by (cases "fst (snd (write_groups None (routed sm t sections) xm imgs rnd (draws w)))")
       (auto simp add: write_section_to_file_routed Let_def)
  with False show ?thesis by simp
qed


lemma routed_samples:
  "routed ab_mapping ''dual'' abab_sections = []"
  "routed ab_mapping ''team'' abab_sections = abab_sections"
  by (simp_all add: routed_def ab_mapping_def abab_sections_def sec_def)

theorem one_file_per_destination_witness:
  "routed ab_mapping ''dual'' abab_sections = [] \<and>
   fst (write_section_to_file abab_sections ''dual'' ab_mapping get_sex_mapping [''pic.jpg''] (\<lambda>k. 0) empty_world) = None \<and>
   files (snd (write_section_to_file abab_sections ''dual'' ab_mapping get_sex_mapping [''pic.jpg''] (\<lambda>k. 0) empty_world))
     = Map.empty \<and>
   stdout (snd (write_section_to_file abab_sections ''dual'' ab_mapping get_sex_mapping [''pic.jpg''] (\<lambda>k. 0) empty_world))
     = [''No sections found for dual.tex''] \<and>
   routed ab_mapping ''team'' abab_sections \<noteq> [] \<and>
   files (snd (write_section_to_file abab_sections ''team'' ab_mapping get_sex_mapping [''pic.jpg''] (\<lambda>k. 0) empty_world))
     = [output_path ''team'' \<mapsto>
          header_writes ''team'' @
          fst (write_groups None abab_sections get_sex_mapping [''pic.jpg''] (\<lambda>k. 0) 0)]"
proof -
  have d: "routed ab_mapping ''dual'' abab_sections = []"
    and t: "routed ab_mapping ''team'' abab_sections \<noteq> []"
    by (simp_all add: routed_samples) (simp add: abab_sections_def)
  have pd: "write_section_to_file abab_sections ''dual'' ab_mapping get_sex_mapping [''pic.jpg''] (\<lambda>k. 0) empty_world
      = (fst (write_section_to_file abab_sections ''dual'' ab_mapping get_sex_mapping [''pic.jpg''] (\<lambda>k. 0) empty_world),
         snd (write_section_to_file abab_sections ''dual'' ab_mapping get_sex_mapping [''pic.jpg''] (\<lambda>k. 0) empty_world))"
    by simp
  have pt: "write_section_to_file abab_sections ''team'' ab_mapping get_sex_mapping [''pic.jpg''] (\<lambda>k. 0) empty_world
      = (fst (write_section_to_file abab_sections ''team'' ab_mapping get_sex_mapping [''pic.jpg''] (\<lambda>k. 0) empty_world),
         snd (write_section_to_file abab_sections ''team'' ab_mapping get_sex_mapping [''pic.jpg''] (\<lambda>k. 0) empty_world))"
    by simp
  from one_file_per_destination[OF pd] d one_file_per_destination[OF pt] t
  show ?thesis by (simp add: empty_world_def routed_samples)
qed

lemma mapping_range:
  "map_of create_section_mapping n = Some t \<Longrightarrow> t \<in> set targets"
  by (auto simp: create_section_mapping_def targets_def split: if_splits)

lemma write_section_empty_pool:
  assumes "routed sm t sections \<noteq> []"
  shows "write_section_to_file sections t sm xm [] rnd w =
     (Some IndexError,
      w\<lparr>files := (files w)(output_path t \<mapsto>
           header_writes t @ [Heading (section_name (hd (routed sm t sections)))])\<rparr>)"
proof -
  from assms obtain s ss where r: "routed sm t sections = s # ss" by (cases "routed sm t sections") auto
  show ?thesis
    by (simp add: write_section_to_file_routed r write_groups_empty_pool Let_def
        del: write_groups.simps)
qed

lemma write_targets_empty_pool:
  assumes "\<exists>t\<in>set ts. routed sm t sections \<noteq> []"
  shows "fst (write_targets ts sections sm xm [] rnd w) = Some IndexError \<and>
     (\<exists>t\<in>set ts. \<exists>name.
        files (snd (write_targets ts sections sm xm [] rnd w)) (output_path t)
          = Some (header_writes t @ [Heading name]))"
  using assms
proof (induction ts arbitrary: w)
  case Nil
  then show ?case by simp
next
  case (Cons t ts)
  show ?case
  proof (cases "routed sm t sections = []")
    case True
    with Cons.prems have "\<exists>t\<in>set ts. routed sm t sections \<noteq> []" by auto
    from Cons.IH[OF this] True show ?thesis
      by (simp add: write_section_to_file_routed)
  next
    case False
    from write_section_empty_pool[OF False] show ?thesis
      by simp
  qed
qed

subsection \<open>The run with and without images\<close>

lemma isspace_simps: "isspace nl" "\<not> isspace bs" "\<not> isspace (CHR ''}'')" "isspace (CHR '' '')"
  by (simp_all add: isspace_def nl_def bs_def)

lemma pp_doc_sections:
  "extract_sections_from_latex pp_doc = Inr [sec ''CMS at PP'' ''Men'' ''times'']"
  by code_simp

lemma no_images: "get_highlight_images [''notes.txt''] = []"
  by (simp add: get_highlight_images_def glob_ext_def ends_with_def)

lemma main_unfold:
  assumes "extract_sections_from_latex doc = Inr sections"
  shows "main (Some doc) image_dir rnd w =
     (case write_targets targets sections create_section_mapping get_sex_mapping
                (get_highlight_images image_dir) rnd
                (prologue w sections (get_highlight_images image_dir)) of
        (Some e, w3) \<Rightarrow> (Some e, w3)
      | (None, w3) \<Rightarrow> (None, w3\<lparr>stdout := stdout w3 @
                             [[nl] @ ''Separation complete with artistic title pages!'']\<rparr>))"
  by (simp add: main_def prologue_def Let_def assms)

lemma main_empty_pool:
  assumes "extract_sections_from_latex doc = Inr sections"
    and "\<exists>s\<in>set sections. map_of create_section_mapping (section_name s) \<noteq> None"
    and "get_highlight_images image_dir = []"
  shows "fst (main (Some doc) image_dir rnd w) = Some IndexError \<and>
      (\<exists>t\<in>set targets. \<exists>name.
         files (snd (main (Some doc) image_dir rnd w)) (output_path t)
           = Some (header_writes t @ [Heading name]))"
proof -
  from assms(2) obtain s t where s: "s \<in> set sections"
    and m: "map_of create_section_mapping (section_name s) = Some t" by auto
  from m have "t \<in> set targets" by (rule mapping_range)
  moreover from s m have "routed create_section_mapping t sections \<noteq> []"
    by (auto simp: routed_def filter_empty_conv)
  ultimately have ex: "\<exists>t\<in>set targets. routed create_section_mapping t sections \<noteq> []" by blast
  note wt = write_targets_empty_pool[OF ex, of get_sex_mapping rnd "prologue w sections []"]
  obtain e w3 where r: "write_targets targets sections create_section_mapping get_sex_mapping [] rnd
      (prologue w sections []) = (e, w3)" by (cases "write_targets targets sections create_section_mapping get_sex_mapping [] rnd
      (prologue w sections [])") auto
  with wt have e: "e = Some IndexError" by simp
  have "main (Some doc) image_dir rnd w = (Some IndexError, w3)"
    by (simp add: main_unfold[OF assms(1)] assms(3) r e)
  with wt r show ?thesis by simp
qed


lemma write_section_ok:
  "imgs \<noteq> [] \<Longrightarrow> fst (write_section_to_file sections t sm xm imgs rnd w) = None"
  using write_groups_ok[of imgs None "routed sm t sections" xm rnd "draws w"]
  by (simp add: write_section_to_file_routed Let_def)

text \<open>
  Claim C9. The image is chosen by an unguarded \<open>random.choice\<close>. When some record is
  routed to a destination, the assembler completes normally exactly when the image pool is
  not empty; on an empty pool it raises \<open>IndexError\<close> after the file has been opened and
  the header and the first heading written, and these stay in the file. For the run: when
  the image directory yields no image and some extracted record has a mapped name, \<open>main\<close>
  ends with \<open>IndexError\<close> and leaves a destination file that holds only its header and one
  heading.
\<close>

theorem empty_pool_raises:
  "(routed sm t sections \<noteq> [] \<longrightarrow>
      (fst (write_section_to_file sections t sm xm imgs rnd w) = None \<longleftrightarrow> imgs \<noteq> []) \<and>
      write_section_to_file sections t sm xm [] rnd w =
        (Some IndexError,
         w\<lparr>files := (files w)(output_path t \<mapsto>
              header_writes t @ [Heading (section_name (hd (routed sm t sections)))])\<rparr>)) \<and>
   (extract_sections_from_latex doc = Inr secs \<and>
    (\<exists>s\<in>set secs. map_of create_section_mapping (section_name s) \<noteq> None) \<and>
    get_highlight_images image_dir = [] \<longrightarrow>
      fst (main (Some doc) image_dir rnd0 w0) = Some IndexError \<and>
      (\<exists>t\<in>set targets. \<exists>name.
         files (snd (main (Some doc) image_dir rnd0 w0)) (output_path t)
           = Some (header_writes t @ [Heading name])))"
proof (intro conjI impI)
  assume r: "routed sm t sections \<noteq> []"
  show "fst (write_section_to_file sections t sm xm imgs rnd w) = None \<longleftrightarrow> imgs \<noteq> []"
  proof (cases "imgs = []")
    case True
    with write_section_empty_pool[OF r, of xm rnd w] show ?thesis by simp
  next
    case False
    with write_section_ok[OF False] show ?thesis by simp
  qed
  show "write_section_to_file sections t sm xm [] rnd w =
        (Some IndexError,
         w\<lparr>files := (files w)(output_path t \<mapsto>
              header_writes t @ [Heading (section_name (hd (routed sm t sections)))])\<rparr>)"
    by (rule write_section_empty_pool[OF r])
next
  assume a: "extract_sections_from_latex doc = Inr secs \<and>
    (\<exists>s\<in>set secs. map_of create_section_mapping (section_name s) \<noteq> None) \<and>
    get_highlight_images image_dir = []"
  then have a1: "extract_sections_from_latex doc = Inr secs"
    and a2: "\<exists>s\<in>set secs. map_of create_section_mapping (section_name s) \<noteq> None"
    and a3: "get_highlight_images image_dir = []" by blast+
  from main_empty_pool[OF a1 a2 a3]
  show "fst (main (Some doc) image_dir rnd0 w0) = Some IndexError"
    and "\<exists>t\<in>set targets. \<exists>name.
         files (snd (main (Some doc) image_dir rnd0 w0)) (output_path t)
           = Some (header_writes t @ [Heading name])"
    by blast+
qed

theorem empty_pool_raises_witness:
  "routed ab_mapping ''team'' abab_sections \<noteq> [] \<and>
   write_section_to_file abab_sections ''team'' ab_mapping get_sex_mapping [] (\<lambda>k. 0) empty_world =
     (Some IndexError,
      empty_world\<lparr>files := [output_path ''team'' \<mapsto> header_writes ''team'' @ [Heading ''A'']]\<rparr>) \<and>
   extract_sections_from_latex pp_doc = Inr [sec ''CMS at PP'' ''Men'' ''times''] \<and>
   (\<exists>s\<in>set [sec ''CMS at PP'' ''Men'' ''times''].
      map_of create_section_mapping (section_name s) \<noteq> None) \<and>
   get_highlight_images [''notes.txt''] = [] \<and>
   fst (main (Some pp_doc) [''notes.txt''] (\<lambda>k. 0) empty_world) = Some IndexError"
proof -
  have r: "routed ab_mapping ''team'' abab_sections \<noteq> []"
    by (simp add: routed_samples) (simp add: abab_sections_def)
  have h: "section_name (hd (routed ab_mapping ''team'' abab_sections)) = ''A''"
    by (simp add: routed_samples) (simp add: abab_sections_def sec_def)
  have m: "\<exists>s\<in>set [sec ''CMS at PP'' ''Men'' ''times''].
      map_of create_section_mapping (section_name s) \<noteq> None"
    by (simp add: sec_def create_section_mapping_def)
  note t = empty_pool_raises[where sm = ab_mapping and t = "''team''" and sections = abab_sections
      and xm = get_sex_mapping and imgs = "[]" and rnd = "\<lambda>k. 0" and w = empty_world
      and doc = pp_doc and secs = "[sec ''CMS at PP'' ''Men'' ''times'']"
      and image_dir = "[''notes.txt'']" and ?rnd0.0 = "\<lambda>k. 0" and ?w0.0 = empty_world]
  from t r have c1: "write_section_to_file abab_sections ''team'' ab_mapping get_sex_mapping [] (\<lambda>k. 0) empty_world =
     (Some IndexError,
      empty_world\<lparr>files := (files empty_world)(output_path ''team'' \<mapsto>
         header_writes ''team'' @ [Heading (section_name (hd (routed ab_mapping ''team'' abab_sections)))])\<rparr>)"
    by blast
  from t pp_doc_sections m no_images
  have c2: "fst (main (Some pp_doc) [''notes.txt''] (\<lambda>k. 0) empty_world) = Some IndexError"
    by blast
  have f: "files empty_world = Map.empty" by (simp add: empty_world_def)
  from r c1 c2 pp_doc_sections m no_images show ?thesis
    by (simp only: h f) blast
qed

subsection \<open>Grouping\<close>






subsection \<open>The extractor\<close>

lemma match_lit_iff: "match_lit p s = Some r \<longleftrightarrow> s = p @ r"
  by (induction p s rule: match_lit.induct) auto

lemma match_lit_None: "match_lit p s = None \<longleftrightarrow> (\<forall>r. s \<noteq> p @ r)"
  using match_lit_iff[of p s] by (cases "match_lit p s") auto

lemma takeWhile_brace:
  "CHR ''}'' \<notin> set name \<Longrightarrow> takeWhile (\<lambda>c. c \<noteq> CHR ''}'') (name @ CHR ''}'' # rest) = name"
  by (induction name) auto

lemma dropWhile_brace:
  "CHR ''}'' \<notin> set name \<Longrightarrow> dropWhile (\<lambda>c. c \<noteq> CHR ''}'') (name @ CHR ''}'' # rest) = CHR ''}'' # rest"
  by (induction name) auto

lemma match_braced_iff:
  "match_braced lit s = Some (name, rest) \<longleftrightarrow>
     name \<noteq> [] \<and> CHR ''}'' \<notin> set name \<and> s = lit @ name @ ''}'' @ rest"
proof
  assume a: "match_braced lit s = Some (name, rest)"
  then obtain r where r: "match_lit lit s = Some r"
    by (cases "match_lit lit s") (auto simp: match_braced_def)
  then have s: "s = lit @ r" by (simp add: match_lit_iff)
  from a r have n: "name = takeWhile (\<lambda>c. c \<noteq> CHR ''}'') r" and ne: "name \<noteq> []"
    and d: "\<exists>c. dropWhile (\<lambda>c. c \<noteq> CHR ''}'') r = c # rest"
    by (auto simp: match_braced_def Let_def split: if_splits list.splits)
  from d obtain c where c: "dropWhile (\<lambda>c. c \<noteq> CHR ''}'') r = c # rest" by blast
  then have "c = CHR ''}''" using hd_dropWhile[of "\<lambda>c. c \<noteq> CHR ''}''" r] by auto
  with c n have "r = name @ CHR ''}'' # rest"
    using takeWhile_dropWhile_id[of "\<lambda>c. c \<noteq> CHR ''}''" r] by simp
  moreover from n have "CHR ''}'' \<notin> set name" by (auto dest: set_takeWhileD)
  ultimately show "name \<noteq> [] \<and> CHR ''}'' \<notin> set name \<and> s = lit @ name @ ''}'' @ rest"
    using ne s by simp
next
  assume "name \<noteq> [] \<and> CHR ''}'' \<notin> set name \<and> s = lit @ name @ ''}'' @ rest"
  then show "match_braced lit s = Some (name, rest)"
    using match_lit_iff[of lit s "name @ ''}'' @ rest"]
    by (simp add: match_braced_def takeWhile_brace dropWhile_brace)
qed

lemma lazy_body_spec:
  "lazy_body t = (b, r) \<Longrightarrow>
     t = b @ r \<and> lookahead r \<and> (\<forall>k < length b. \<not> lookahead (drop k t))"
proof (induction t arbitrary: b r)
  case Nil
  then show ?case by (simp add: lookahead_def)
next
  case (Cons c cs)
  show ?case
  proof (cases "lookahead (c # cs)")
    case True
    with Cons.prems show ?thesis by simp
  next
    case False
    obtain b' r' where l: "lazy_body cs = (b', r')" by (cases "lazy_body cs") auto
    with False Cons.prems have e: "b = c # b'" "r = r'" by simp_all
    from Cons.IH[OF l] have ih: "cs = b' @ r'" "lookahead r'" "\<forall>k < length b'. \<not> lookahead (drop k cs)"
      by blast+
    have "\<forall>k < length b. \<not> lookahead (drop k (c # cs))"
    proof (intro allI impI)
      fix k assume "k < length b"
      then show "\<not> lookahead (drop k (c # cs))"
        using False ih(3) e by (cases k) auto
    qed
    with ih e show ?thesis by simp
  qed
qed

lemma dropWhile_spaces:
  "\<exists>ws. s = ws @ dropWhile isspace s \<and> (\<forall>c\<in>set ws. isspace c)"
  using takeWhile_dropWhile_id[of isspace s] set_takeWhileD[of _ isspace s]
  by (metis)


lemma match_section_Some:
  assumes "match_section s = Some ((g1, g2, g3), rest)"
  shows "\<exists>name sx ws1 ws2.
     g1 = subsection_open @ name @ ''}'' \<and> g2 = subsubsection_open @ sx @ ''}'' \<and>
     name \<noteq> [] \<and> CHR ''}'' \<notin> set name \<and> sx \<noteq> [] \<and> CHR ''}'' \<notin> set sx \<and>
     (\<forall>c\<in>set ws1. isspace c) \<and> (\<forall>c\<in>set ws2. isspace c) \<and>
     s = g1 @ ws1 @ g2 @ ws2 @ g3 @ rest \<and>
     lookahead rest \<and> (\<forall>k < length g3. \<not> lookahead (drop k (g3 @ rest))) \<and>
     (case g3 @ rest of [] \<Rightarrow> True | c # _ \<Rightarrow> \<not> isspace c)"
proof -
  from assms obtain name r1 where m1: "match_braced subsection_open s = Some (name, r1)"
    by (auto simp: match_section_def split: option.splits)
  with assms obtain sx r2 where m2: "match_braced subsubsection_open (dropWhile isspace r1) = Some (sx, r2)"
    by (auto simp: match_section_def split: option.splits)
  from assms m1 m2 have l: "lazy_body (dropWhile isspace r2) = (g3, rest)"
    and g1: "g1 = subsection_open @ name @ ''}''" and g2: "g2 = subsubsection_open @ sx @ ''}''"
    by (auto simp: match_section_def split: prod.splits)
  from m1 have n: "name \<noteq> []" "CHR ''}'' \<notin> set name" and s: "s = subsection_open @ name @ ''}'' @ r1"
    by (simp_all add: match_braced_iff)
  from m2 have x: "sx \<noteq> []" "CHR ''}'' \<notin> set sx"
    and d1: "dropWhile isspace r1 = subsubsection_open @ sx @ ''}'' @ r2"
    by (simp_all add: match_braced_iff)
  obtain ws1 where w1: "r1 = ws1 @ dropWhile isspace r1" "\<forall>c\<in>set ws1. isspace c"
    using dropWhile_spaces[of r1] by blast
  obtain ws2 where w2: "r2 = ws2 @ dropWhile isspace r2" "\<forall>c\<in>set ws2. isspace c"
    using dropWhile_spaces[of r2] by blast
  from lazy_body_spec[OF l] have b: "dropWhile isspace r2 = g3 @ rest" "lookahead rest"
    "\<forall>k < length g3. \<not> lookahead (drop k (dropWhile isspace r2))" by blast+
  have h: "case g3 @ rest of [] \<Rightarrow> True | c # _ \<Rightarrow> \<not> isspace c"
    using hd_dropWhile[of isspace r2] b(1) by (cases "g3 @ rest") auto
  have "s = g1 @ ws1 @ g2 @ ws2 @ g3 @ rest"
    using s w1(1) d1 w2(1) b(1) g1 g2 by (metis append.assoc)
  with g1 g2 n x w1(2) w2(2) b h show ?thesis by (metis)
qed

lemma match_section_iff: "match_section s \<noteq> None \<longleftrightarrow> heading_with_subheading s"
proof
  assume "match_section s \<noteq> None"
  then obtain g1 g2 g3 rest where "match_section s = Some ((g1, g2, g3), rest)" by auto
  from match_section_Some[OF this] show "heading_with_subheading s"
    unfolding heading_with_subheading_def by (metis append.assoc)
next
  assume "heading_with_subheading s"
  then obtain name ws sx t where
    s: "s = subsection_open @ name @ ''}'' @ ws @ subsubsection_open @ sx @ ''}'' @ t"
    and n: "name \<noteq> []" "CHR ''}'' \<notin> set name" and x: "sx \<noteq> []" "CHR ''}'' \<notin> set sx"
    and w: "\<forall>c\<in>set ws. isspace c"
    unfolding heading_with_subheading_def by blast
  from s n have m1: "match_braced subsection_open s = Some (name, ws @ subsubsection_open @ sx @ ''}'' @ t)"
    by (simp add: match_braced_iff)
  from w have "dropWhile isspace (ws @ subsubsection_open @ sx @ ''}'' @ t)
      = dropWhile isspace (subsubsection_open @ sx @ ''}'' @ t)"
    by (simp add: dropWhile_append2)
  also have "\<dots> = subsubsection_open @ sx @ ''}'' @ t"
    by (simp add: subsubsection_open_def isspace_simps)
  finally have d: "dropWhile isspace (ws @ subsubsection_open @ sx @ ''}'' @ t)
      = subsubsection_open @ sx @ ''}'' @ t" .
  from x have m2: "match_braced subsubsection_open (subsubsection_open @ sx @ ''}'' @ t) = Some (sx, t)"
    by (simp add: match_braced_iff)
  show "match_section s \<noteq> None"
    using m1 d m2 by (auto simp: match_section_def split: prod.splits)
qed

lemma finditer_mem:
  "(p, g) \<in> set (finditer pos skip s) \<Longrightarrow>
     pos + skip \<le> p \<and> p < pos + length s \<and> (\<exists>rest. match_section (drop (p - pos) s) = Some (g, rest))"
proof (induction pos skip s rule: finditer.induct)
  case (1 pos skip)
  then show ?case by simp
next
  case (2 pos skip c cs)
  then have ih: "Suc pos + skip \<le> p" "p < Suc pos + length cs"
    "\<exists>rest. match_section (drop (p - Suc pos) cs) = Some (g, rest)" by auto
  from ih(1) have "p - pos = Suc (p - Suc pos)" by arith
    then have "drop (p - pos) (c # cs) = drop (p - Suc pos) cs" by simp
  with ih show ?case by simp
next
  case (3 pos c cs)
  show ?case
  proof (cases "match_section (c # cs)")
    case None
    with 3 have ih: "Suc pos + 0 \<le> p" "p < Suc pos + length cs"
      "\<exists>rest. match_section (drop (p - Suc pos) cs) = Some (g, rest)" by auto
    from ih(1) have "p - pos = Suc (p - Suc pos)" by arith
      then have "drop (p - pos) (c # cs) = drop (p - Suc pos) cs" by simp
    with ih show ?thesis by simp
  next
    case (Some a)
    obtain groups rest where a: "a = (groups, rest)" by (cases a) auto
    from "3.prems" Some a consider "(p, g) = (pos, groups)"
      | "(p, g) \<in> set (finditer (Suc pos) (length cs - length rest) cs)" by auto
    then show ?thesis
    proof cases
      case 1
      with Some a show ?thesis by simp
    next
      case 2
      from "3.IH"(2)[OF Some a[symmetric] 2]
      have ih: "Suc pos + (length cs - length rest) \<le> p" "p < Suc pos + length cs"
        "\<exists>rest. match_section (drop (p - Suc pos) cs) = Some (g, rest)" by auto
      from ih(1) have "p - pos = Suc (p - Suc pos)" by arith
        then have "drop (p - pos) (c # cs) = drop (p - Suc pos) cs" by simp
      with ih show ?thesis by simp
    qed
  qed
qed

lemma finditer_sorted: "sorted_wrt (<) (map fst (finditer pos skip s))"
proof (induction pos skip s rule: finditer.induct)
  case (1 pos skip)
  show ?case by simp
next
  case (2 pos skip c cs)
  then show ?case by simp
next
  case (3 pos c cs)
  show ?case
  proof (cases "match_section (c # cs)")
    case None
    with 3 show ?thesis by simp
  next
    case (Some a)
    obtain groups rest where a: "a = (groups, rest)" by (cases a) auto
    have "\<forall>x\<in>set (finditer (Suc pos) (length cs - length rest) cs). pos < fst x"
      using finditer_mem[of _ _ "Suc pos" "length cs - length rest" cs] by fastforce
    with "3.IH"(2)[OF Some a[symmetric]] Some a show ?thesis by simp
  qed
qed


lemma strip_braced: "strip (bs # xs @ ''}'') = bs # xs @ ''}''"
  by (simp add: strip_def isspace_simps)

lemma re_search_braced_hit:
  assumes "name \<noteq> []" "CHR ''}'' \<notin> set name"
  shows "re_search_braced lit (lit @ name @ ''}'') = Some name"
proof -
  have m: "match_braced lit (lit @ name @ ''}'') = Some (name, [])"
    using assms match_braced_iff[of lit "lit @ name @ ''}''" name "[]"] by simp
  show ?thesis
    using m by (cases "lit @ name @ ''}''") auto
qed

lemma inner_braced: "inner lit (lit @ name @ ''}'') = name"
  by (simp add: inner_def)

lemma build_sections_total:
  assumes "\<forall>m\<in>set ms. \<exists>rest s. match_section s = Some (m, rest)"
  shows "build_sections ms = Inr (map section_of_match ms)"
  using assms
proof (induction ms)
  case Nil
  show ?case by simp
next
  case (Cons m ms)
  obtain g1 g2 g3 where m: "m = (g1, g2, g3)" by (cases m) auto
  from Cons.prems m obtain rest s where "match_section s = Some ((g1, g2, g3), rest)" by auto
  from match_section_Some[OF this] obtain name sx where
    g: "g1 = subsection_open @ name @ ''}''" "g2 = subsubsection_open @ sx @ ''}''"
    and n: "name \<noteq> []" "CHR ''}'' \<notin> set name" and x: "sx \<noteq> []" "CHR ''}'' \<notin> set sx"
    by blast
  have s1: "strip g1 = g1" unfolding g subsection_open_def using strip_braced[of "''subsection{'' @ name"] by simp
  have s2: "strip g2 = g2" unfolding g subsubsection_open_def using strip_braced[of "''subsubsection{'' @ sx"] by simp
  have r1: "re_search_braced subsection_open g1 = Some name"
    unfolding g by (rule re_search_braced_hit[OF n])
  have r2: "re_search_braced subsubsection_open g2 = Some sx"
    unfolding g by (rule re_search_braced_hit[OF x])
  have i1: "inner subsection_open g1 = name" unfolding g by (rule inner_braced)
  have i2: "inner subsubsection_open g2 = sx" unfolding g by (rule inner_braced)
  from Cons.prems have "\<forall>m\<in>set ms. \<exists>rest s. match_section s = Some (m, rest)" by simp
  from Cons.IH[OF this] show ?case
    by (simp add: m s1 s2 r1 r2 i1 i2 section_of_match_def)
qed

lemma extract_total:
  "extract_sections_from_latex doc = Inr (map (\<lambda>x. section_of_match (snd x)) (finditer 0 0 doc))"
proof -
  have "\<forall>m\<in>set (re_findall doc). \<exists>rest s. match_section s = Some (m, rest)"
    using finditer_mem[of _ _ 0 0 doc] by (fastforce simp: re_findall_def)
  from build_sections_total[OF this] show ?thesis
    by (simp add: extract_sections_from_latex_def re_findall_def)
qed

lemma finditer_skip:
  "finditer pos (length xs) (xs @ ys) = finditer (pos + length xs) 0 ys"
  by (induction xs arbitrary: pos) simp_all

lemma finditer_resume:
  assumes "match_section (c # cs) = Some (g, rest)"
  shows "finditer pos 0 (c # cs) = (pos, g) # finditer (pos + (length (c # cs) - length rest)) 0 rest"
proof -
  obtain g1 g2 g3 where g: "g = (g1, g2, g3)" by (cases g) auto
  from match_section_Some[OF assms[unfolded g]] obtain pre where
    p: "c # cs = pre @ rest" and "pre \<noteq> []"
    by (metis append.assoc append_is_Nil_conv list.distinct(1) subsection_open_def)
  then obtain pre' where pre: "pre = c # pre'" by (cases pre) auto
  with p have cs: "cs = pre' @ rest" by simp
  have "finditer (Suc pos) (length cs - length rest) cs = finditer (Suc pos + length pre') 0 rest"
    unfolding cs using finditer_skip[of "Suc pos" pre' rest] by simp
  then show ?thesis using assms by (simp add: cs)
qed

lemma finditer_no_match:
  "\<forall>p. match_section (drop p s) = None \<Longrightarrow> finditer pos 0 s = []"
proof (induction s arbitrary: pos)
  case Nil
  show ?case by simp
next
  case (Cons c cs)
  from Cons.prems have "match_section (drop 0 (c # cs)) = None" by blast
  then have n: "match_section (c # cs) = None" by simp
  have "\<forall>p. match_section (drop p cs) = None"
  proof
    fix p from Cons.prems have "match_section (drop (Suc p) (c # cs)) = None" by blast
    then show "match_section (drop p cs) = None" by simp
  qed
  from Cons.IH[OF this] n show ?case by simp
qed

lemma two_section_matches:
  "finditer 0 0 two_section_doc =
     [(6, subsection_open @ ''CMS at PP}'', subsubsection_open @ ''Men}'', ''times'' @ [nl]),
      (80, subsection_open @ ''NCAA TOP 20}'', subsubsection_open @ ''Athena}'', ''x '')]"
  by code_simp

lemma two_section_lonely: "match_section (drop 55 two_section_doc) = None"
  by code_simp

lemma two_section_records:
  "map (\<lambda>x. section_of_match (snd x)) (finditer 0 0 two_section_doc)
     = [sec ''CMS at PP'' ''Men'' ''times'', sec ''NCAA TOP 20'' ''Athena'' ''x'']"
  unfolding two_section_matches by code_simp

text \<open>
  Claim C6. The extractor is a function of the document text alone: its result is the list
  of records built, one by one and in the same order, from the matches of the scan, and it
  has no other input. The matches are listed by strictly increasing positions, and each
  match is what the pattern matches at its position, so the records come in the order in
  which their headings occur in the document.
\<close>

theorem extraction_order:
  "extract_sections_from_latex doc = Inr (map (\<lambda>x. section_of_match (snd x)) (finditer 0 0 doc)) \<and>
   sorted_wrt (<) (map fst (finditer 0 0 doc)) \<and>
   (\<forall>x\<in>set (finditer 0 0 doc).
      fst x < length doc \<and> (\<exists>rest. match_section (drop (fst x) doc) = Some (snd x, rest)))"
proof (intro conjI ballI)
  show "extract_sections_from_latex doc = Inr (map (\<lambda>x. section_of_match (snd x)) (finditer 0 0 doc))"
    by (rule extract_total)
  show "sorted_wrt (<) (map fst (finditer 0 0 doc))"
    by (rule finditer_sorted)
next
  fix x assume "x \<in> set (finditer 0 0 doc)"
  then have "(fst x, snd x) \<in> set (finditer 0 0 doc)" by simp
  from finditer_mem[OF this]
  show "fst x < length doc" and "\<exists>rest. match_section (drop (fst x) doc) = Some (snd x, rest)"
    by simp_all
qed

theorem extraction_order_witness:
  "(80, subsection_open @ ''NCAA TOP 20}'', subsubsection_open @ ''Athena}'', ''x '')
     \<in> set (finditer 0 0 two_section_doc) \<and>
   (80::nat) < length two_section_doc \<and>
   (\<exists>rest. match_section (drop 80 two_section_doc)
      = Some ((subsection_open @ ''NCAA TOP 20}'', subsubsection_open @ ''Athena}'', ''x ''), rest)) \<and>
   extract_sections_from_latex two_section_doc
     = Inr [sec ''CMS at PP'' ''Men'' ''times'', sec ''NCAA TOP 20'' ''Athena'' ''x''] \<and>
   sorted_wrt (<) (map fst (finditer 0 0 two_section_doc)) \<and>
   map fst (finditer 0 0 two_section_doc) = [6, 80]"
proof -
  have m: "(80, subsection_open @ ''NCAA TOP 20}'', subsubsection_open @ ''Athena}'', ''x '')
     \<in> set (finditer 0 0 two_section_doc)"
    by (simp add: two_section_matches)
  note t = extraction_order[of two_section_doc]
  from t m have "fst (80::nat, subsection_open @ ''NCAA TOP 20}'', subsubsection_open @ ''Athena}'', ''x '')
       < length two_section_doc \<and>
     (\<exists>rest. match_section (drop (fst (80::nat, subsection_open @ ''NCAA TOP 20}'', subsubsection_open @ ''Athena}'', ''x '')) two_section_doc)
       = Some (snd (80::nat, subsection_open @ ''NCAA TOP 20}'', subsubsection_open @ ''Athena}'', ''x ''), rest))"
    by blast
  then have c: "(80::nat) < length two_section_doc \<and>
   (\<exists>rest. match_section (drop 80 two_section_doc)
      = Some ((subsection_open @ ''NCAA TOP 20}'', subsubsection_open @ ''Athena}'', ''x ''), rest))"
    by simp
  from t have e: "extract_sections_from_latex two_section_doc
     = Inr [sec ''CMS at PP'' ''Men'' ''times'', sec ''NCAA TOP 20'' ''Athena'' ''x'']"
    by (simp only: two_section_records)
  from t have s: "sorted_wrt (<) (map fst (finditer 0 0 two_section_doc))" by blast
  have p: "map fst (finditer 0 0 two_section_doc) = [6, 80]" by (simp add: two_section_matches)
  from m c e s p show ?thesis by blast
qed


lemma section_of_match_eq:
  "section_of_match (subsection_open @ name @ ''}'', subsubsection_open @ sx @ ''}'', body)
     = \<lparr>section_name = name, sex = sx, subsection_text = subsection_open @ name @ ''}'',
        subsubsection_text = subsubsection_open @ sx @ ''}'', content = strip body\<rparr>"
  by (simp add: section_of_match_def inner_def)

lemma lookahead_iff:
  "lookahead r \<longleftrightarrow>
     (\<exists>t. r = CHR 0x5C # ''subsection{'' @ t) \<or> (\<exists>t. r = CHR 0x5C # ''end{document}'' @ t) \<or>
     r = [] \<or> r = [CHR 0x0A]"
proof -
  have a: "match_lit subsection_open r \<noteq> None \<longleftrightarrow> (\<exists>t. r = CHR 0x5C # ''subsection{'' @ t)"
    using match_lit_None[of subsection_open r] by (auto simp: subsection_open_def bs_def)
  have b: "match_lit end_document r \<noteq> None \<longleftrightarrow> (\<exists>t. r = CHR 0x5C # ''end{document}'' @ t)"
    using match_lit_None[of end_document r] by (auto simp: end_document_def bs_def)
  show ?thesis unfolding lookahead_def a b by (simp add: nl_def)
qed

lemma table_doc_matches:
  "finditer 0 0 table_doc =
     [(0, subsection_open @ ''SCIAC Records}'', subsubsection_open @ ''Stag}'',
          bs # ''begin{tabular} a '' @ bs # ''end{tabular}'' @ [nl]),
      (105, subsection_open @ ''NCAA TOP 20}'', subsubsection_open @ ''Athena}'', ''x '')]"
  by code_simp

lemma table_doc_lonely: "match_section (drop 80 table_doc) = None"
  by code_simp

lemma table_doc_records:
  "map (\<lambda>x. section_of_match (snd x)) (finditer 0 0 table_doc)
     = [sec ''SCIAC Records'' ''Stag'' (bs # ''begin{tabular} a '' @ bs # ''end{tabular}''),
          sec ''NCAA TOP 20'' ''Athena'' ''x'']"
  unfolding table_doc_matches by code_simp

text \<open>
  Claim C8. The extractor never raises: it returns the records of its matches. A position
  where the text is not a heading followed, after white space only, by a sub-heading is the
  position of no match, so a heading without a sub-heading gives no record. Every match
  reads, at its position: the heading, white space, the sub-heading, white space, the body,
  and then the rest of the text. The body is everything up to the next heading or the end
  of the document: the rest starts with \<^verbatim>\<open>\subsection{\<close> or with \<^verbatim>\<open>\end{document}\<close>, or
  is empty, or is the line feed that ends the text, and at no position inside the body does
  the text from there on do so. The record holds the two names and the stripped body.
\<close>

theorem unmatched_heading_skipped:
  "extract_sections_from_latex doc = Inr (map (\<lambda>x. section_of_match (snd x)) (finditer 0 0 doc)) \<and>
   (\<forall>p. \<not> heading_with_subheading (drop p doc) \<longrightarrow> p \<notin> fst ` set (finditer 0 0 doc)) \<and>
   (\<forall>x\<in>set (finditer 0 0 doc). \<exists>name sx ws1 ws2 body rest.
      drop (fst x) doc
        = subsection_open @ name @ ''}'' @ ws1 @ subsubsection_open @ sx @ ''}'' @ ws2 @ body @ rest \<and>
      name \<noteq> [] \<and> CHR ''}'' \<notin> set name \<and> sx \<noteq> [] \<and> CHR ''}'' \<notin> set sx \<and>
      (\<forall>c\<in>set ws1. isspace c) \<and> (\<forall>c\<in>set ws2. isspace c) \<and>
      (case body @ rest of [] \<Rightarrow> True | c # _ \<Rightarrow> \<not> isspace c) \<and>
      ((\<exists>t. rest = CHR 0x5C # ''subsection{'' @ t) \<or>
       (\<exists>t. rest = CHR 0x5C # ''end{document}'' @ t) \<or>
       rest = [] \<or> rest = [CHR 0x0A]) \<and>
      (\<forall>k < length body. \<not> ((\<exists>t. drop k (body @ rest) = CHR 0x5C # ''subsection{'' @ t) \<or>
       (\<exists>t. drop k (body @ rest) = CHR 0x5C # ''end{document}'' @ t) \<or>
       drop k (body @ rest) = [] \<or> drop k (body @ rest) = [CHR 0x0A])) \<and>
      section_of_match (snd x)
        = \<lparr>section_name = name, sex = sx, subsection_text = subsection_open @ name @ ''}'',
           subsubsection_text = subsubsection_open @ sx @ ''}'', content = strip body\<rparr>)"
proof (intro conjI allI impI ballI)
  show "extract_sections_from_latex doc = Inr (map (\<lambda>x. section_of_match (snd x)) (finditer 0 0 doc))"
    by (rule extract_total)
next
  fix p assume n: "\<not> heading_with_subheading (drop p doc)"
  show "p \<notin> fst ` set (finditer 0 0 doc)"
  proof
    assume "p \<in> fst ` set (finditer 0 0 doc)"
    then obtain g where "(p, g) \<in> set (finditer 0 0 doc)" by force
    from finditer_mem[OF this] have "match_section (drop p doc) \<noteq> None"
      by (elim conjE exE) simp
    with n match_section_iff[of "drop p doc"] show False by blast
  qed
next
  fix x assume "x \<in> set (finditer 0 0 doc)"
  then have "(fst x, snd x) \<in> set (finditer 0 0 doc)" by simp
  from finditer_mem[OF this] obtain rest where
    m: "match_section (drop (fst x) doc) = Some (snd x, rest)" by auto
  obtain g1 g2 g3 where g: "snd x = (g1, g2, g3)" by (cases "snd x") auto
  from match_section_Some[OF m[unfolded g]] obtain name sx ws1 ws2 where
    f: "g1 = subsection_open @ name @ ''}''" "g2 = subsubsection_open @ sx @ ''}''"
      "name \<noteq> []" "CHR ''}'' \<notin> set name" "sx \<noteq> []" "CHR ''}'' \<notin> set sx"
      "\<forall>c\<in>set ws1. isspace c" "\<forall>c\<in>set ws2. isspace c"
      "drop (fst x) doc = g1 @ ws1 @ g2 @ ws2 @ g3 @ rest"
      "lookahead rest" "\<forall>k < length g3. \<not> lookahead (drop k (g3 @ rest))"
      "case g3 @ rest of [] \<Rightarrow> True | c # _ \<Rightarrow> \<not> isspace c"
    by blast
  have d: "drop (fst x) doc
        = subsection_open @ name @ ''}'' @ ws1 @ subsubsection_open @ sx @ ''}'' @ ws2 @ g3 @ rest"
    using f(9) unfolding f(1) f(2) by simp
  have e: "section_of_match (snd x)
        = \<lparr>section_name = name, sex = sx, subsection_text = subsection_open @ name @ ''}'',
           subsubsection_text = subsubsection_open @ sx @ ''}'', content = strip g3\<rparr>"
    unfolding g f(1) f(2) by (rule section_of_match_eq)
  have b1: "((\<exists>t. rest = CHR 0x5C # ''subsection{'' @ t) \<or>
       (\<exists>t. rest = CHR 0x5C # ''end{document}'' @ t) \<or>
       rest = [] \<or> rest = [CHR 0x0A])"
    using f(10) by (simp only: lookahead_iff)
  have b2: "\<forall>k < length g3. \<not> ((\<exists>t. drop k (g3 @ rest) = CHR 0x5C # ''subsection{'' @ t) \<or>
       (\<exists>t. drop k (g3 @ rest) = CHR 0x5C # ''end{document}'' @ t) \<or>
       drop k (g3 @ rest) = [] \<or> drop k (g3 @ rest) = [CHR 0x0A])"
    using f(11) by (simp only: lookahead_iff)
  from d f(3-8) f(12) b1 b2 e
  show "\<exists>name sx ws1 ws2 body rest.
      drop (fst x) doc
        = subsection_open @ name @ ''}'' @ ws1 @ subsubsection_open @ sx @ ''}'' @ ws2 @ body @ rest \<and>
      name \<noteq> [] \<and> CHR ''}'' \<notin> set name \<and> sx \<noteq> [] \<and> CHR ''}'' \<notin> set sx \<and>
      (\<forall>c\<in>set ws1. isspace c) \<and> (\<forall>c\<in>set ws2. isspace c) \<and>
      (case body @ rest of [] \<Rightarrow> True | c # _ \<Rightarrow> \<not> isspace c) \<and>
      ((\<exists>t. rest = CHR 0x5C # ''subsection{'' @ t) \<or>
       (\<exists>t. rest = CHR 0x5C # ''end{document}'' @ t) \<or>
       rest = [] \<or> rest = [CHR 0x0A]) \<and>
      (\<forall>k < length body. \<not> ((\<exists>t. drop k (body @ rest) = CHR 0x5C # ''subsection{'' @ t) \<or>
       (\<exists>t. drop k (body @ rest) = CHR 0x5C # ''end{document}'' @ t) \<or>
       drop k (body @ rest) = [] \<or> drop k (body @ rest) = [CHR 0x0A])) \<and>
      section_of_match (snd x)
        = \<lparr>section_name = name, sex = sx, subsection_text = subsection_open @ name @ ''}'',
           subsubsection_text = subsubsection_open @ sx @ ''}'', content = strip body\<rparr>"
    by blast
qed

theorem unmatched_heading_skipped_witness:
  "drop 80 table_doc = subsection_open @ ''Lonely} text '' @ drop 105 table_doc \<and>
   \<not> heading_with_subheading (drop 80 table_doc) \<and>
   80 \<notin> fst ` set (finditer 0 0 table_doc) \<and>
   (0, (subsection_open @ ''SCIAC Records}'', subsubsection_open @ ''Stag}'',
        bs # ''begin{tabular} a '' @ bs # ''end{tabular}'' @ [nl])) \<in> set (finditer 0 0 table_doc) \<and>
   (\<exists>name sx ws1 ws2 body rest.
      drop 0 table_doc
        = subsection_open @ name @ ''}'' @ ws1 @ subsubsection_open @ sx @ ''}'' @ ws2 @ body @ rest \<and>
      name \<noteq> [] \<and> CHR ''}'' \<notin> set name \<and> sx \<noteq> [] \<and> CHR ''}'' \<notin> set sx \<and>
      (\<forall>c\<in>set ws1. isspace c) \<and> (\<forall>c\<in>set ws2. isspace c) \<and>
      (case body @ rest of [] \<Rightarrow> True | c # _ \<Rightarrow> \<not> isspace c) \<and>
      ((\<exists>t. rest = CHR 0x5C # ''subsection{'' @ t) \<or>
       (\<exists>t. rest = CHR 0x5C # ''end{document}'' @ t) \<or>
       rest = [] \<or> rest = [CHR 0x0A]) \<and>
      (\<forall>k < length body. \<not> ((\<exists>t. drop k (body @ rest) = CHR 0x5C # ''subsection{'' @ t) \<or>
       (\<exists>t. drop k (body @ rest) = CHR 0x5C # ''end{document}'' @ t) \<or>
       drop k (body @ rest) = [] \<or> drop k (body @ rest) = [CHR 0x0A])) \<and>
      section_of_match 
        (subsection_open @ ''SCIAC Records}'', subsubsection_open @ ''Stag}'',
        bs # ''begin{tabular} a '' @ bs # ''end{tabular}'' @ [nl])
        = \<lparr>section_name = name, sex = sx, subsection_text = subsection_open @ name @ ''}'',
           subsubsection_text = subsubsection_open @ sx @ ''}'', content = strip body\<rparr>) \<and>
   extract_sections_from_latex table_doc
     = Inr [sec ''SCIAC Records'' ''Stag'' (bs # ''begin{tabular} a '' @ bs # ''end{tabular}''),
          sec ''NCAA TOP 20'' ''Athena'' ''x'']"
proof -
  have d: "drop 80 table_doc = subsection_open @ ''Lonely} text '' @ drop 105 table_doc"
    by code_simp
  have n: "\<not> heading_with_subheading (drop 80 table_doc)"
    using match_section_iff[of "drop 80 table_doc"] table_doc_lonely by simp
  have m: "(0, (subsection_open @ ''SCIAC Records}'', subsubsection_open @ ''Stag}'',
        bs # ''begin{tabular} a '' @ bs # ''end{tabular}'' @ [nl])) \<in> set (finditer 0 0 table_doc)"
    by (simp add: table_doc_matches)
  note t = unmatched_heading_skipped[of table_doc]
  from t n have c1: "80 \<notin> fst ` set (finditer 0 0 table_doc)" by blast
  from t have c2: "extract_sections_from_latex table_doc
     = Inr [sec ''SCIAC Records'' ''Stag'' (bs # ''begin{tabular} a '' @ bs # ''end{tabular}''),
          sec ''NCAA TOP 20'' ''Athena'' ''x'']"
    by (simp only: table_doc_records)
  from t have "\<forall>x\<in>set (finditer 0 0 table_doc). \<exists>name sx ws1 ws2 body rest.
      drop (fst x) table_doc
        = subsection_open @ name @ ''}'' @ ws1 @ subsubsection_open @ sx @ ''}'' @ ws2 @ body @ rest \<and>
      name \<noteq> [] \<and> CHR ''}'' \<notin> set name \<and> sx \<noteq> [] \<and> CHR ''}'' \<notin> set sx \<and>
      (\<forall>c\<in>set ws1. isspace c) \<and> (\<forall>c\<in>set ws2. isspace c) \<and>
      (case body @ rest of [] \<Rightarrow> True | c # _ \<Rightarrow> \<not> isspace c) \<and>
      ((\<exists>t. rest = CHR 0x5C # ''subsection{'' @ t) \<or>
       (\<exists>t. rest = CHR 0x5C # ''end{document}'' @ t) \<or>
       rest = [] \<or> rest = [CHR 0x0A]) \<and>
      (\<forall>k < length body. \<not> ((\<exists>t. drop k (body @ rest) = CHR 0x5C # ''subsection{'' @ t) \<or>
       (\<exists>t. drop k (body @ rest) = CHR 0x5C # ''end{document}'' @ t) \<or>
       drop k (body @ rest) = [] \<or> drop k (body @ rest) = [CHR 0x0A])) \<and>
      section_of_match (snd x)
        = \<lparr>section_name = name, sex = sx, subsection_text = subsection_open @ name @ ''}'',
           subsubsection_text = subsubsection_open @ sx @ ''}'', content = strip body\<rparr>"
    by (elim conjE)
  from bspec[OF this m] have c3: "\<exists>name sx ws1 ws2 body rest.
      drop 0 table_doc
        = subsection_open @ name @ ''}'' @ ws1 @ subsubsection_open @ sx @ ''}'' @ ws2 @ body @ rest \<and>
      name \<noteq> [] \<and> CHR ''}'' \<notin> set name \<and> sx \<noteq> [] \<and> CHR ''}'' \<notin> set sx \<and>
      (\<forall>c\<in>set ws1. isspace c) \<and> (\<forall>c\<in>set ws2. isspace c) \<and>
      (case body @ rest of [] \<Rightarrow> True | c # _ \<Rightarrow> \<not> isspace c) \<and>
      ((\<exists>t. rest = CHR 0x5C # ''subsection{'' @ t) \<or>
       (\<exists>t. rest = CHR 0x5C # ''end{document}'' @ t) \<or>
       rest = [] \<or> rest = [CHR 0x0A]) \<and>
      (\<forall>k < length body. \<not> ((\<exists>t. drop k (body @ rest) = CHR 0x5C # ''subsection{'' @ t) \<or>
       (\<exists>t. drop k (body @ rest) = CHR 0x5C # ''end{document}'' @ t) \<or>
       drop k (body @ rest) = [] \<or> drop k (body @ rest) = [CHR 0x0A])) \<and>
      section_of_match 
        (subsection_open @ ''SCIAC Records}'', subsubsection_open @ ''Stag}'',
        bs # ''begin{tabular} a '' @ bs # ''end{tabular}'' @ [nl])
        = \<lparr>section_name = name, sex = sx, subsection_text = subsection_open @ name @ ''}'',
           subsubsection_text = subsubsection_open @ sx @ ''}'', content = strip body\<rparr>"
    by (simp only: fst_conv snd_conv)
  from d n c1 m c3 c2 show ?thesis by (intro conjI)
qed

subsection \<open>The run on a document without sections\<close>

lemma no_backslash_no_match:
  assumes "bs \<notin> set s"
  shows "match_section (drop p s) = None"
proof (rule ccontr)
  assume "match_section (drop p s) \<noteq> None"
  then have "heading_with_subheading (drop p s)" by (simp only: match_section_iff)
  then obtain r where "drop p s = bs # r"
    unfolding heading_with_subheading_def subsection_open_def by auto
  then have "bs \<in> set (drop p s)" by simp
  with assms show False using set_drop_subset[of p s] by blast
qed

lemma routed_Nil: "routed sm t [] = []"
  by (simp add: routed_def)

lemma main_no_sections:
  assumes "extract_sections_from_latex doc = Inr []"
  shows "main (Some doc) image_dir rnd w =
     (None, (prologue w [] (get_highlight_images image_dir))
        \<lparr>stdout := stdout (prologue w [] (get_highlight_images image_dir)) @
           [[nl] @ ''Writing sections to champs.tex...'', ''No sections found for champs.tex'',
            [nl] @ ''Writing sections to dual.tex...'', ''No sections found for dual.tex'',
            [nl] @ ''Writing sections to team.tex...'', ''No sections found for team.tex'',
            [nl] @ ''Separation complete with artistic title pages!'']\<rparr>)"
  by (simp add: main_unfold[OF assms] targets_def write_section_to_file_routed routed_Nil)

lemma files_prologue: "files (prologue w secs imgs) = files w"
  by (simp add: prologue_def)

text \<open>
  Claim C4, as amended. When no position of the document is a heading followed by a
  sub-heading, the extractor returns the empty list and raises nothing, and the run then
  writes no file at all: it ends normally, the files are as they were, and for each of
  \<open>champs\<close>, \<open>dual\<close> and \<open>team\<close> it prints the diagnostic \<open>No sections found for\<close>.
\<close>

theorem no_pairs_no_files:
  "(\<forall>p. \<not> heading_with_subheading (drop p doc)) \<longrightarrow>
     extract_sections_from_latex doc = Inr [] \<and>
     fst (main (Some doc) image_dir rnd w) = None \<and>
     files (snd (main (Some doc) image_dir rnd w)) = files w \<and>
     stdout (snd (main (Some doc) image_dir rnd w)) =
       stdout (prologue w [] (get_highlight_images image_dir)) @
         [[nl] @ ''Writing sections to champs.tex...'', ''No sections found for champs.tex'',
          [nl] @ ''Writing sections to dual.tex...'', ''No sections found for dual.tex'',
          [nl] @ ''Writing sections to team.tex...'', ''No sections found for team.tex'',
          [nl] @ ''Separation complete with artistic title pages!'']"
proof
  assume a: "\<forall>p. \<not> heading_with_subheading (drop p doc)"
  have "\<forall>p. match_section (drop p doc) = None"
  proof
    fix p from a match_section_iff[of "drop p doc"] show "match_section (drop p doc) = None" by blast
  qed
  from finditer_no_match[OF this, of 0] have e: "extract_sections_from_latex doc = Inr []"
    by (simp add: extract_total)
  from main_no_sections[OF e, of image_dir rnd w] e
  show "extract_sections_from_latex doc = Inr [] \<and>
     fst (main (Some doc) image_dir rnd w) = None \<and>
     files (snd (main (Some doc) image_dir rnd w)) = files w \<and>
     stdout (snd (main (Some doc) image_dir rnd w)) =
       stdout (prologue w [] (get_highlight_images image_dir)) @
         [[nl] @ ''Writing sections to champs.tex...'', ''No sections found for champs.tex'',
          [nl] @ ''Writing sections to dual.tex...'', ''No sections found for dual.tex'',
          [nl] @ ''Writing sections to team.tex...'', ''No sections found for team.tex'',
          [nl] @ ''Separation complete with artistic title pages!'']"
    by (simp add: files_prologue)
qed

lemma plain_text_sections: "extract_sections_from_latex ''plain text'' = Inr []"
  by code_simp

text \<open>
  The claim as first stated has the run produce three files that hold their header line;
  on a document of plain text, and from a world without files, none of the three exists
  afterwards.
\<close>

theorem header_only_files_counterexample:
  "extract_sections_from_latex ''plain text'' = Inr [] \<and>
   files (snd (main (Some ''plain text'') [''pic.jpg''] (\<lambda>k. 0) empty_world)) (output_path ''champs'') = None \<and>
   files (snd (main (Some ''plain text'') [''pic.jpg''] (\<lambda>k. 0) empty_world)) (output_path ''dual'') = None \<and>
   files (snd (main (Some ''plain text'') [''pic.jpg''] (\<lambda>k. 0) empty_world)) (output_path ''team'') = None"
  by (simp add: main_no_sections[OF plain_text_sections] plain_text_sections files_prologue empty_world_def)

theorem no_pairs_no_files_witness:
  "(\<forall>p. \<not> heading_with_subheading (drop p ''plain text'')) \<and>
   extract_sections_from_latex ''plain text'' = Inr [] \<and>
   fst (main (Some ''plain text'') [''pic.jpg''] (\<lambda>k. 0) empty_world) = None \<and>
   files (snd (main (Some ''plain text'') [''pic.jpg''] (\<lambda>k. 0) empty_world)) = Map.empty"
proof -
  have b: "bs \<notin> set ''plain text''" by (simp add: bs_def)
  have h: "\<forall>p. \<not> heading_with_subheading (drop p ''plain text'')"
  proof
    fix p from no_backslash_no_match[OF b, of p] match_section_iff[of "drop p ''plain text''"]
    show "\<not> heading_with_subheading (drop p ''plain text'')" by blast
  qed
  note t = no_pairs_no_files[of "''plain text''" "[''pic.jpg'']" "\<lambda>k. 0" empty_world]
  from t h have "extract_sections_from_latex ''plain text'' = Inr [] \<and>
   fst (main (Some ''plain text'') [''pic.jpg''] (\<lambda>k. 0) empty_world) = None \<and>
   files (snd (main (Some ''plain text'') [''pic.jpg''] (\<lambda>k. 0) empty_world)) = files empty_world"
    by blast
  with h show ?thesis by (simp add: empty_world_def)
qed


subsection \<open>Routing\<close>

lemma written_contents_append:
  "written_contents (xs @ ys) = written_contents xs @ written_contents ys"
  by (induction xs rule: written_contents.induct) auto

lemma written_contents_header: "written_contents (header_writes t) = []"
  by (simp add: header_writes_def)

lemma write_groups_contents:
  "imgs \<noteq> [] \<Longrightarrow>
     written_contents (fst (write_groups cur ss xm imgs rnd k))
       = filter (\<lambda>c. c \<noteq> []) (map (\<lambda>s. strip (content s)) ss)"
  by (induction ss arbitrary: cur k)
     (simp_all add: Let_def split_beta random_choice_def written_contents_append)

lemma output_path_inj: "output_path t = output_path t' \<longleftrightarrow> t = t'"
  by (simp add: output_path_def)

lemma write_section_files:
  assumes "imgs \<noteq> []"
  shows "fst (write_section_to_file secs t sm xm imgs rnd w) = None \<and>
     (if routed sm t secs = []
      then files (snd (write_section_to_file secs t sm xm imgs rnd w)) = files w
      else \<exists>ws. files (snd (write_section_to_file secs t sm xm imgs rnd w))
                   = (files w)(output_path t \<mapsto> ws) \<and>
                written_contents ws
                   = filter (\<lambda>c. c \<noteq> []) (map (\<lambda>s. strip (content s)) (routed sm t secs)))"
proof -
  have ok: "fst (snd (write_groups None (routed sm t secs) xm imgs rnd (draws w))) = None"
    by (rule write_groups_ok[OF assms])
  have c: "written_contents (header_writes t @ fst (write_groups None (routed sm t secs) xm imgs rnd (draws w)))
      = filter (\<lambda>c. c \<noteq> []) (map (\<lambda>s. strip (content s)) (routed sm t secs))"
    by (simp add: written_contents_append written_contents_header write_groups_contents[OF assms])
  show ?thesis
  proof (cases "routed sm t secs = []")
    case True
    then show ?thesis by (simp add: write_section_to_file_routed)
  next
    case False
    have "files (snd (write_section_to_file secs t sm xm imgs rnd w))
        = (files w)(output_path t \<mapsto>
            header_writes t @ fst (write_groups None (routed sm t secs) xm imgs rnd (draws w)))"
      using False ok by (simp add: write_section_to_file_routed Let_def)
    moreover have "fst (write_section_to_file secs t sm xm imgs rnd w) = None"
      using False ok by (simp add: write_section_to_file_routed Let_def)
    ultimately show ?thesis using False c by auto
  qed
qed

lemma write_targets_ok:
  assumes "imgs \<noteq> []" "distinct ts"
  shows "fst (write_targets ts secs sm xm imgs rnd w) = None \<and>
     (\<forall>t. if t \<in> set ts \<and> routed sm t secs \<noteq> []
          then \<exists>ws. files (snd (write_targets ts secs sm xm imgs rnd w)) (output_path t) = Some ws \<and>
                 written_contents ws
                   = filter (\<lambda>c. c \<noteq> []) (map (\<lambda>s. strip (content s)) (routed sm t secs))
          else files (snd (write_targets ts secs sm xm imgs rnd w)) (output_path t)
                 = files w (output_path t))"
  using assms(2)
proof (induction ts arbitrary: w)
  case Nil
  show ?case by simp
next
  case (Cons t0 ts)
  define w1 where "w1 = w\<lparr>stdout := stdout w @ [[nl] @ ''Writing sections to '' @ t0 @ ''.tex...'']\<rparr>"
  obtain e w2 where r: "write_section_to_file secs t0 sm xm imgs rnd w1 = (e, w2)"
    by (cases "write_section_to_file secs t0 sm xm imgs rnd w1") auto
  have fw1: "files w1 = files w" by (simp add: w1_def)
  from write_section_files[OF assms(1), of secs t0 sm xm rnd w1, unfolded r fw1]
  have e: "e = None"
    and f: "if routed sm t0 secs = [] then files w2 = files w
            else \<exists>ws. files w2 = (files w)(output_path t0 \<mapsto> ws) \<and>
                written_contents ws
                   = filter (\<lambda>c. c \<noteq> []) (map (\<lambda>s. strip (content s)) (routed sm t0 secs))"
    by (simp_all split: if_splits)
  have u: "write_targets (t0 # ts) secs sm xm imgs rnd w = write_targets ts secs sm xm imgs rnd w2"
    using r e by (simp add: w1_def)
  from Cons.prems have d: "distinct ts" and n: "t0 \<notin> set ts" by simp_all
  note ih = Cons.IH[OF d, of w2]
  show ?case
  proof (intro conjI allI)
    show "fst (write_targets (t0 # ts) secs sm xm imgs rnd w) = None"
      using ih u by simp
  next
    fix t
    show "if t \<in> set (t0 # ts) \<and> routed sm t secs \<noteq> []
          then \<exists>ws. files (snd (write_targets (t0 # ts) secs sm xm imgs rnd w)) (output_path t) = Some ws \<and>
                 written_contents ws
                   = filter (\<lambda>c. c \<noteq> []) (map (\<lambda>s. strip (content s)) (routed sm t secs))
          else files (snd (write_targets (t0 # ts) secs sm xm imgs rnd w)) (output_path t)
                 = files w (output_path t)"
    proof (cases "t \<in> set ts \<and> routed sm t secs \<noteq> []")
      case True
      with ih show ?thesis unfolding u by (simp del: write_targets.simps)
    next
      case False
      with ih have k: "files (snd (write_targets ts secs sm xm imgs rnd w2)) (output_path t)
          = files w2 (output_path t)"
        by (simp del: write_targets.simps)
      show ?thesis
      proof (cases "t = t0")
        case True
        with f k n show ?thesis unfolding u by (auto simp del: write_targets.simps split: if_splits)
      next
        case neq: False
        with f have "files w2 (output_path t) = files w (output_path t)"
          by (auto simp: output_path_inj split: if_splits)
        with k False neq show ?thesis unfolding u by (auto simp del: write_targets.simps)
      qed
    qed
  qed
qed

lemma distinct_targets: "distinct targets"
  by (simp add: targets_def)

lemma main_ok:
  assumes "extract_sections_from_latex doc = Inr secs" "get_highlight_images image_dir \<noteq> []"
  shows "fst (main (Some doc) image_dir rnd w) = None \<and>
     (\<forall>t. if t \<in> set targets \<and> routed create_section_mapping t secs \<noteq> []
          then \<exists>ws. files (snd (main (Some doc) image_dir rnd w)) (output_path t) = Some ws \<and>
                 written_contents ws
                   = filter (\<lambda>c. c \<noteq> [])
                       (map (\<lambda>s. strip (content s)) (routed create_section_mapping t secs))
          else files (snd (main (Some doc) image_dir rnd w)) (output_path t)
                 = files w (output_path t))"
proof -
  define W where "W = write_targets targets secs create_section_mapping get_sex_mapping
      (get_highlight_images image_dir) rnd (prologue w secs (get_highlight_images image_dir))"
  note wt = write_targets_ok[OF assms(2) distinct_targets, of secs create_section_mapping
      get_sex_mapping rnd "prologue w secs (get_highlight_images image_dir)", folded W_def]
  obtain e w3 where r: "W = (e, w3)" by (cases W) auto
  with wt have e: "e = None" by simp
  have m: "main (Some doc) image_dir rnd w =
      (None, w3\<lparr>stdout := stdout w3 @ [[nl] @ ''Separation complete with artistic title pages!'']\<rparr>)"
    using r e by (simp add: main_unfold[OF assms(1)] W_def)
  from wt[unfolded r] have "\<forall>t. if t \<in> set targets \<and> routed create_section_mapping t secs \<noteq> []
          then \<exists>ws. files w3 (output_path t) = Some ws \<and>
                 written_contents ws
                   = filter (\<lambda>c. c \<noteq> [])
                       (map (\<lambda>s. strip (content s)) (routed create_section_mapping t secs))
          else files w3 (output_path t) = files w (output_path t)"
    by (simp add: files_prologue cong: if_cong)
  then show ?thesis
    unfolding m by (simp cong: if_cong)
qed


lemma routed_mem:
  "s \<in> set (routed sm t secs) \<longleftrightarrow> s \<in> set secs \<and> map_of sm (section_name s) = Some t"
  by (simp add: routed_def)

text \<open>
  Claim C1, as amended. When the image pool is not empty, the run ends normally and: a
  record whose name is a key of the fixed table is routed to the target the table gives,
  which is one of the three targets of the run, and to no other; the bodies written into
  that target's file are exactly the non-blank stripped bodies of the records routed to
  it, in document order; a record whose name is not a key is routed to no target; and the
  file of a target without records is left as it was. Names are looked up by equality:
  \<open>CMS at PP\<close> is a key, while the same name in lower case or with a space after it is
  not.
\<close>

theorem routing_coverage:
  "extract_sections_from_latex doc = Inr secs \<and> get_highlight_images image_dir \<noteq> [] \<longrightarrow>
     fst (main (Some doc) image_dir rnd w) = None \<and>
     (\<forall>s\<in>set secs. \<forall>t. map_of create_section_mapping (section_name s) = Some t \<longrightarrow>
        t \<in> set targets \<and> s \<in> set (routed create_section_mapping t secs) \<and>
        (\<forall>t'. t' \<noteq> t \<longrightarrow> s \<notin> set (routed create_section_mapping t' secs)) \<and>
        (\<exists>ws. files (snd (main (Some doc) image_dir rnd w)) (output_path t) = Some ws \<and>
              written_contents ws
                = filter (\<lambda>c. c \<noteq> [])
                    (map (\<lambda>s. strip (content s)) (routed create_section_mapping t secs)))) \<and>
     (\<forall>s\<in>set secs. map_of create_section_mapping (section_name s) = None \<longrightarrow>
        (\<forall>t. s \<notin> set (routed create_section_mapping t secs))) \<and>
     (\<forall>t\<in>set targets. routed create_section_mapping t secs = [] \<longrightarrow>
        files (snd (main (Some doc) image_dir rnd w)) (output_path t) = files w (output_path t)) \<and>
     map_of create_section_mapping ''CMS at PP'' = Some ''dual'' \<and>
     map_of create_section_mapping ''cms at pp'' = None \<and>
     map_of create_section_mapping ''CMS at PP '' = None"
proof (intro impI)
  assume a: "extract_sections_from_latex doc = Inr secs \<and> get_highlight_images image_dir \<noteq> []"
  then have a1: "extract_sections_from_latex doc = Inr secs"
    and a2: "get_highlight_images image_dir \<noteq> []" by blast+
  note m = main_ok[OF a1 a2, of rnd w]
  have p1: "fst (main (Some doc) image_dir rnd w) = None" using m by blast
  have p2: "\<forall>s\<in>set secs. \<forall>t. map_of create_section_mapping (section_name s) = Some t \<longrightarrow>
        t \<in> set targets \<and> s \<in> set (routed create_section_mapping t secs) \<and>
        (\<forall>t'. t' \<noteq> t \<longrightarrow> s \<notin> set (routed create_section_mapping t' secs)) \<and>
        (\<exists>ws. files (snd (main (Some doc) image_dir rnd w)) (output_path t) = Some ws \<and>
              written_contents ws
                = filter (\<lambda>c. c \<noteq> [])
                    (map (\<lambda>s. strip (content s)) (routed create_section_mapping t secs)))"
  proof (intro ballI allI impI)
    fix s t assume s: "s \<in> set secs" and t: "map_of create_section_mapping (section_name s) = Some t"
    from t have tt: "t \<in> set targets" by (rule mapping_range)
    from s t have r: "s \<in> set (routed create_section_mapping t secs)" by (simp add: routed_mem)
    then have ne: "routed create_section_mapping t secs \<noteq> []" by auto
    from t have u: "\<forall>t'. t' \<noteq> t \<longrightarrow> s \<notin> set (routed create_section_mapping t' secs)"
      by (simp add: routed_mem)
    from m tt ne have "\<exists>ws. files (snd (main (Some doc) image_dir rnd w)) (output_path t) = Some ws \<and>
              written_contents ws
                = filter (\<lambda>c. c \<noteq> [])
                    (map (\<lambda>s. strip (content s)) (routed create_section_mapping t secs))"
      by (auto split: if_splits)
    with tt r u show "t \<in> set targets \<and> s \<in> set (routed create_section_mapping t secs) \<and>
        (\<forall>t'. t' \<noteq> t \<longrightarrow> s \<notin> set (routed create_section_mapping t' secs)) \<and>
        (\<exists>ws. files (snd (main (Some doc) image_dir rnd w)) (output_path t) = Some ws \<and>
              written_contents ws
                = filter (\<lambda>c. c \<noteq> [])
                    (map (\<lambda>s. strip (content s)) (routed create_section_mapping t secs)))"
      by blast
  qed
  have p3: "\<forall>s\<in>set secs. map_of create_section_mapping (section_name s) = None \<longrightarrow>
        (\<forall>t. s \<notin> set (routed create_section_mapping t secs))"
    by (simp add: routed_mem)
  have p4: "\<forall>t\<in>set targets. routed create_section_mapping t secs = [] \<longrightarrow>
        files (snd (main (Some doc) image_dir rnd w)) (output_path t) = files w (output_path t)"
    using m by (auto split: if_splits)
  have p5: "map_of create_section_mapping ''CMS at PP'' = Some ''dual'' \<and>
     map_of create_section_mapping ''cms at pp'' = None \<and>
     map_of create_section_mapping ''CMS at PP '' = None"
    by (simp add: create_section_mapping_def)
  from p1 p2 p3 p4 p5 show "fst (main (Some doc) image_dir rnd w) = None \<and>
     (\<forall>s\<in>set secs. \<forall>t. map_of create_section_mapping (section_name s) = Some t \<longrightarrow>
        t \<in> set targets \<and> s \<in> set (routed create_section_mapping t secs) \<and>
        (\<forall>t'. t' \<noteq> t \<longrightarrow> s \<notin> set (routed create_section_mapping t' secs)) \<and>
        (\<exists>ws. files (snd (main (Some doc) image_dir rnd w)) (output_path t) = Some ws \<and>
              written_contents ws
                = filter (\<lambda>c. c \<noteq> [])
                    (map (\<lambda>s. strip (content s)) (routed create_section_mapping t secs)))) \<and>
     (\<forall>s\<in>set secs. map_of create_section_mapping (section_name s) = None \<longrightarrow>
        (\<forall>t. s \<notin> set (routed create_section_mapping t secs))) \<and>
     (\<forall>t\<in>set targets. routed create_section_mapping t secs = [] \<longrightarrow>
        files (snd (main (Some doc) image_dir rnd w)) (output_path t) = files w (output_path t)) \<and>
     map_of create_section_mapping ''CMS at PP'' = Some ''dual'' \<and>
     map_of create_section_mapping ''cms at pp'' = None \<and>
     map_of create_section_mapping ''CMS at PP '' = None"
    by (intro conjI) (elim conjE, assumption)+
qed

lemma mixed_doc_sections:
  "extract_sections_from_latex mixed_doc
     = Inr [sec ''CMS at PP'' ''Men'' ''times'', sec ''cms at pp'' ''Women'' ''lower'']"
  by code_simp

lemma one_image: "get_highlight_images [''pic.jpg''] = [''../assets/highlights/Highlights/pic.jpg'']"
  by (simp add: get_highlight_images_def glob_ext_def ends_with_def)

text \<open>
  The claim as first stated holds for every run; with an image directory that has no image
  the record of \<open>pp_doc\<close>, whose name is a key, has its body in no file: the run stops
  with \<open>IndexError\<close> after the header and the heading of \<open>dual\<close>.
\<close>

theorem content_missing_counterexample:
  "extract_sections_from_latex pp_doc = Inr [sec ''CMS at PP'' ''Men'' ''times''] \<and>
   map_of create_section_mapping ''CMS at PP'' = Some ''dual'' \<and>
   get_highlight_images [''notes.txt''] = [] \<and>
   fst (main (Some pp_doc) [''notes.txt''] (\<lambda>k. 0) empty_world) = Some IndexError \<and>
   files (snd (main (Some pp_doc) [''notes.txt''] (\<lambda>k. 0) empty_world)) (output_path ''dual'')
     = Some (header_writes ''dual'' @ [Heading ''CMS at PP'']) \<and>
   files (snd (main (Some pp_doc) [''notes.txt''] (\<lambda>k. 0) empty_world)) (output_path ''champs'') = None \<and>
   files (snd (main (Some pp_doc) [''notes.txt''] (\<lambda>k. 0) empty_world)) (output_path ''team'') = None"
  by code_simp


theorem routing_coverage_witness:
  "extract_sections_from_latex mixed_doc
     = Inr [sec ''CMS at PP'' ''Men'' ''times'', sec ''cms at pp'' ''Women'' ''lower''] \<and>
   get_highlight_images [''pic.jpg''] \<noteq> [] \<and>
   map_of create_section_mapping (section_name (sec ''CMS at PP'' ''Men'' ''times'')) = Some ''dual'' \<and>
   (\<exists>ws. files (snd (main (Some mixed_doc) [''pic.jpg''] (\<lambda>k. 0) empty_world)) (output_path ''dual'') = Some ws \<and>
         written_contents ws = [''times'']) \<and>
   map_of create_section_mapping (section_name (sec ''cms at pp'' ''Women'' ''lower'')) = None \<and>
   (\<forall>t. sec ''cms at pp'' ''Women'' ''lower''
        \<notin> set (routed create_section_mapping t
                 [sec ''CMS at PP'' ''Men'' ''times'', sec ''cms at pp'' ''Women'' ''lower''])) \<and>
   ''champs'' \<in> set targets \<and>
   routed create_section_mapping ''champs''
     [sec ''CMS at PP'' ''Men'' ''times'', sec ''cms at pp'' ''Women'' ''lower''] = [] \<and>
   files (snd (main (Some mixed_doc) [''pic.jpg''] (\<lambda>k. 0) empty_world)) (output_path ''champs'') = None"
proof -
  let ?secs = "[sec ''CMS at PP'' ''Men'' ''times'', sec ''cms at pp'' ''Women'' ''lower'']"
  have i: "get_highlight_images [''pic.jpg''] \<noteq> []" by (simp add: one_image)
  have m1: "map_of create_section_mapping (section_name (sec ''CMS at PP'' ''Men'' ''times'')) = Some ''dual''"
    by (simp add: sec_def create_section_mapping_def)
  have m2: "map_of create_section_mapping (section_name (sec ''cms at pp'' ''Women'' ''lower'')) = None"
    by (simp add: sec_def create_section_mapping_def)
  have r1: "routed create_section_mapping ''dual'' ?secs = [sec ''CMS at PP'' ''Men'' ''times'']"
    by (simp add: routed_def sec_def create_section_mapping_def)
  have r2: "routed create_section_mapping ''champs'' ?secs = []"
    by (simp add: routed_def sec_def create_section_mapping_def)
  have c: "filter (\<lambda>c. c \<noteq> []) (map (\<lambda>s. strip (content s)) [sec ''CMS at PP'' ''Men'' ''times'']) = [''times'']"
    by (simp add: sec_def strip_def isspace_def)
  have tg: "''champs'' \<in> set targets" by (simp add: targets_def)
  have s1: "sec ''CMS at PP'' ''Men'' ''times'' \<in> set ?secs" by simp
  have s2: "sec ''cms at pp'' ''Women'' ''lower'' \<in> set ?secs" by simp
  have h: "extract_sections_from_latex mixed_doc = Inr ?secs \<and> get_highlight_images [''pic.jpg''] \<noteq> []"
    using mixed_doc_sections i by simp
  note t = routing_coverage[where doc = mixed_doc and secs = ?secs and image_dir = "[''pic.jpg'']"
      and rnd = "\<lambda>k. 0" and w = empty_world, rule_format, OF h]
  from t s1 m1 have "\<exists>ws. files (snd (main (Some mixed_doc) [''pic.jpg''] (\<lambda>k. 0) empty_world)) (output_path ''dual'') = Some ws \<and>
         written_contents ws = filter (\<lambda>c. c \<noteq> [])
            (map (\<lambda>s. strip (content s)) (routed create_section_mapping ''dual'' ?secs))"
    by blast
  then have c1: "\<exists>ws. files (snd (main (Some mixed_doc) [''pic.jpg''] (\<lambda>k. 0) empty_world)) (output_path ''dual'') = Some ws \<and>
         written_contents ws = [''times'']"
    by (simp only: r1 c)
  from t s2 m2 have c2: "\<forall>t. sec ''cms at pp'' ''Women'' ''lower''
        \<notin> set (routed create_section_mapping t ?secs)"
    by blast
  from t tg r2 have "files (snd (main (Some mixed_doc) [''pic.jpg''] (\<lambda>k. 0) empty_world)) (output_path ''champs'')
      = files empty_world (output_path ''champs'')"
    by blast
  then have c3: "files (snd (main (Some mixed_doc) [''pic.jpg''] (\<lambda>k. 0) empty_world)) (output_path ''champs'') = None"
    by (simp add: empty_world_def)
  from mixed_doc_sections i m1 c1 m2 c2 tg r2 c3 show ?thesis
    by (intro conjI) assumption+
qed

end
